theory Spec2Isabelle
  imports Main "HOL-Library.Sublist"
begin

section \<open>Python values\<close>

text \<open>
  Plans, tool payloads and results are Python dictionaries of JSON-like values.
  A dictionary is an association list (each key at most once, looked up with \<open>map_of\<close>);
  a finite float is its mantissa and binary exponent. Strings are ASCII text.
\<close>

datatype pyval =
    PNone
  | PBool bool
  | PInt int
  | PFloat int int
  | PStr string
  | PList "pyval list"
  | PDict "(string \<times> pyval) list"

type_synonym params = "(string \<times> pyval) list"

text \<open>Truth value of an object, as \<open>if x\<close> and \<open>not x\<close> test it.\<close>

fun truthy :: "pyval \<Rightarrow> bool" where
  "truthy PNone = False"
| "truthy (PBool b) = b"
| "truthy (PInt i) = (i \<noteq> 0)"
| "truthy (PFloat m e) = (m \<noteq> 0)"
| "truthy (PStr s) = (s \<noteq> [])"
| "truthy (PList xs) = (xs \<noteq> [])"
| "truthy (PDict d) = (d \<noteq> [])"

text \<open>\<open>d.get(k)\<close>: the value under \<open>k\<close>, \<open>None\<close> when the key is absent.\<close>

definition dict_get :: "params \<Rightarrow> string \<Rightarrow> pyval" where
  "dict_get d k = (case map_of d k of None \<Rightarrow> PNone | Some v \<Rightarrow> v)"

text \<open>\<open>d[k] = v\<close>: replaces the value of an existing key in place, else appends the key.\<close>

fun dict_set :: "params \<Rightarrow> string \<Rightarrow> pyval \<Rightarrow> params" where
  "dict_set [] k v = [(k, v)]"
| "dict_set ((k', v') # d) k v =
     (if k' = k then (k, v) # d else (k', v') # dict_set d k v)"

text \<open>\<open>x.get(key, default)\<close> on an optional field of a record.\<close>

definition get_or :: "'a \<Rightarrow> 'a option \<Rightarrow> 'a" where
  "get_or d x = (case x of None \<Rightarrow> d | Some v \<Rightarrow> v)"

text \<open>\<open>str.lower()\<close> and \<open>str.upper()\<close> on ASCII text.\<close>

definition lower_char :: "char \<Rightarrow> char" where
  "lower_char c =
     (case map_of (zip ''ABCDEFGHIJKLMNOPQRSTUVWXYZ'' ''abcdefghijklmnopqrstuvwxyz'') c of
        None \<Rightarrow> c | Some l \<Rightarrow> l)"

definition upper_char :: "char \<Rightarrow> char" where
  "upper_char c =
     (case map_of (zip ''abcdefghijklmnopqrstuvwxyz'' ''ABCDEFGHIJKLMNOPQRSTUVWXYZ'') c of
        None \<Rightarrow> c | Some u \<Rightarrow> u)"

definition lower :: "string \<Rightarrow> string" where
  "lower s = map lower_char s"

definition upper :: "string \<Rightarrow> string" where
  "upper s = map upper_char s"

text \<open>\<open>sep.join(parts)\<close>.\<close>

fun join :: "string \<Rightarrow> string list \<Rightarrow> string" where
  "join sep [] = []"
| "join sep [p] = p"
| "join sep (p # q # ps) = p @ sep @ join sep (q # ps)"

section \<open>Plans, the capability registry and the outside world\<close>

text \<open>
  A step of a plan. A key that the planner may leave out is an optional field; the code
  reads it with \<open>step.get(key, default)\<close>. An absent \<open>parameters\<close> key reads as the empty
  dictionary everywhere, so the field is the dictionary itself.
\<close>

record step =
  s_step_id :: "pyval option"
  s_tool :: "string option"
  s_func :: "string option"
  s_action :: "string option"
  s_parameters :: params

record plan =
  task :: "string option"
  steps :: "step list"

text \<open>
  A handler is a call to an external service: given its keyword arguments and the state
  of the outside world it either raises (the text of the exception, \<open>str(e)\<close>, is kept)
  or returns a payload, and leaves the world in a new state.
\<close>

datatype 'a outcome = Raises string | Returns 'a

type_synonym 'w handler = "params \<Rightarrow> 'w \<Rightarrow> pyval outcome \<times> 'w"

text \<open>
  An entry of a tool's \<open>functions\<close> table (\<open>TOOL_INFO["functions"][name]\<close>): the expected
  parameter names and the handler. The registry maps a tool name to its \<open>functions\<close> table;
  the executor reads nothing else of a tool's description. The tables of the weather and
  news tools are not among the sources, so the registry is a parameter of the executor,
  as the attribute \<open>tools_registry\<close> is.
\<close>

record 'w function_info =
  parameters :: "string list"
  handler :: "'w handler option"

type_synonym 'w function_table = "string \<rightharpoonup> 'w function_info"

type_synonym 'w registry = "string \<rightharpoonup> 'w function_table"

text \<open>
  The running system: the outside world, and three counters that no code reads. They
  record how often a handler, the step executor and the text-generation service have
  been called, so that "is never invoked" can be stated.
\<close>

record 'w state =
  world :: 'w
  handler_calls :: nat
  step_calls :: nat
  llm_calls :: nat

text \<open>
  What the code takes from the Python runtime. \<open>int(v)\<close> and \<open>float(v)\<close> either convert,
  raise \<open>ValueError\<close> or \<open>TypeError\<close> (which the code catches), or raise something else,
  such as \<open>OverflowError\<close>. \<open>py_str\<close> is \<open>str(v)\<close>. \<open>set_order\<close> is the order in which
  \<open>list(s)\<close> enumerates a set, given its elements in insertion order; Python promises only
  that every element comes once. \<open>time_time\<close> reads the clock and \<open>round_diff a b\<close> is
  \<open>round(a - b, 2)\<close>. \<open>time_sleep d\<close> is \<open>time.sleep(d)\<close>: it lets the world go on for
  a while, or raises (\<open>Some\<close> the text of the exception), as it does for a negative
  number and for what is no number.
\<close>

datatype coerced = Coerced pyval | CoerceError | CoerceFault string

record 'w python =
  py_int :: "pyval \<Rightarrow> coerced"
  py_float :: "pyval \<Rightarrow> coerced"
  py_str :: "pyval \<Rightarrow> string"
  set_order :: "string list \<Rightarrow> string list"
  time_time :: "'w \<Rightarrow> pyval"
  round_diff :: "pyval \<Rightarrow> pyval \<Rightarrow> pyval"
  time_sleep :: "pyval \<Rightarrow> 'w \<Rightarrow> string option \<times> 'w"

record 'w ExecutorAgent =
  max_retries :: int
  retry_delay :: pyval
  tools_registry :: "'w registry"

section \<open>The step executor\<close>

text \<open>
  The dictionary that \<open>_execute_step\<close> returns; \<open>func\<close> is its key \<open>function\<close>. \<open>data\<close> and
  \<open>error\<close> are \<open>None\<close> until they are set.
\<close>

record StepResult =
  step_id :: pyval
  tool :: string
  func :: string
  action :: string
  success :: bool
  data :: pyval
  error :: pyval
  attempts :: int

text \<open>\<open>_infer_function\<close>: the function of a tool that fits the step's parameters and action.\<close>

definition has_key :: "params \<Rightarrow> string \<Rightarrow> bool" where
  "has_key d k = (map_of d k \<noteq> None)"

definition infer_function :: "string \<Rightarrow> step \<Rightarrow> string option" where
  "infer_function tool_name st =
     (let ps = s_parameters st;
          act = lower (get_or [] (s_action st))
      in if tool_name = ''github'' then
           (if has_key ps ''owner'' \<and> has_key ps ''repo''
              then Some ''get_repository_details''
            else if has_key ps ''username'' then Some ''get_user_repos''
            else Some ''search_repositories'')
         else if tool_name = ''weather'' then
           (if has_key ps ''lat'' \<and> has_key ps ''lon''
              then Some ''get_weather_by_coordinates''
            else Some ''get_current_weather'')
         else if tool_name = ''news'' then
           (if sublist ''headline'' act \<or> sublist ''top'' act
              then Some ''get_top_headlines''
            else Some ''search_news'')
         else None)"

text \<open>
  \<open>_clean_parameters\<close>: keeps the expected parameters that are present, converting
  \<open>limit\<close> to an integer and \<open>lat\<close>, \<open>lon\<close> to floats where the conversion works. An
  exception of the conversion other than the two caught ones leaves the function
  (\<open>Inl\<close> its text).
\<close>

fun clean_loop :: "'w python \<Rightarrow> params \<Rightarrow> string list \<Rightarrow> params \<Rightarrow> string + params" where
  "clean_loop P ps [] cleaned = Inr cleaned"
| "clean_loop P ps (param # rest) cleaned =
     (case map_of ps param of
        None \<Rightarrow> clean_loop P ps rest cleaned
      | Some v \<Rightarrow>
          if param \<in> set [''limit'', ''lat'', ''lon''] then
            (case (if param = ''limit'' then py_int P v else py_float P v) of
               Coerced v' \<Rightarrow> clean_loop P ps rest (dict_set cleaned param v')
             | CoerceError \<Rightarrow> clean_loop P ps rest (dict_set cleaned param v)
             | CoerceFault e \<Rightarrow> Inl e)
          else clean_loop P ps rest (dict_set cleaned param v))"

definition clean_parameters :: "'w python \<Rightarrow> params \<Rightarrow> string list \<Rightarrow> string + params" where
  "clean_parameters P ps expected_params =
     (if expected_params = [] then Inr ps else clean_loop P ps expected_params [])"

text \<open>
  The first half of \<open>_execute_step\<close>: finding the handler. It ends with the tool
  unknown, with no function found (carrying what inference returned), with no handler
  bound to the function, or with the function's name, expected parameters and handler.
\<close>

datatype 'w resolution =
    UnknownTool
  | UnknownFunction "string option"
  | NoHandler string
  | Resolved string "string list" "'w handler"

definition lookup_handler :: "'w function_table \<Rightarrow> string \<Rightarrow> 'w resolution" where
  "lookup_handler functions function_name =
     (case functions function_name of
        None \<Rightarrow> NoHandler function_name
      | Some function_info \<Rightarrow>
          (case handler function_info of
             None \<Rightarrow> NoHandler function_name
           | Some h \<Rightarrow> Resolved function_name (parameters function_info) h))"

definition resolve :: "'w ExecutorAgent \<Rightarrow> step \<Rightarrow> 'w resolution" where
  "resolve E st =
     (let tool_name = lower (get_or [] (s_tool st));
          function_name = get_or [] (s_func st)
      in case tools_registry E tool_name of
           None \<Rightarrow> UnknownTool
         | Some functions \<Rightarrow>
             if functions function_name = None then
               (case infer_function tool_name st of
                  None \<Rightarrow> UnknownFunction None
                | Some inferred \<Rightarrow>
                    if inferred = [] then UnknownFunction (Some inferred)
                    else lookup_handler functions inferred)
             else lookup_handler functions function_name)"

text \<open>
  The response of a handler reports a soft error when it is a dictionary whose \<open>error\<close>
  entry is truthy.
\<close>

fun response_error :: "pyval \<Rightarrow> pyval option" where
  "response_error (PDict d) =
     (if truthy (dict_get d ''error'') then Some (dict_get d ''error'') else None)"
| "response_error _ = None"

text \<open>
  The body of the \<open>try\<close> block up to the call: clean the parameters and call the handler.
  An exception of either is the outcome \<open>Raises\<close>; only a call that takes place is counted
  and moves the world on.
\<close>

definition try_call ::
  "'w python \<Rightarrow> 'w handler \<Rightarrow> string list \<Rightarrow> params \<Rightarrow> 'w state \<Rightarrow>
   pyval outcome \<times> 'w state" where
  "try_call P h expected ps s =
     (case clean_parameters P ps expected of
        Inl e \<Rightarrow> (Raises e, s)
      | Inr clean_params \<Rightarrow>
          (case h clean_params (world s) of
             (out, w') \<Rightarrow> (out, s\<lparr>world := w', handler_calls := handler_calls s + 1\<rparr>)))"

text \<open>\<open>time.sleep(self.retry_delay)\<close>, the wait before the next attempt.\<close>

definition sleep :: "'w python \<Rightarrow> 'w ExecutorAgent \<Rightarrow> 'w state \<Rightarrow> string option \<times> 'w state" where
  "sleep P E s =
     (case time_sleep P (retry_delay E) (world s) of (raised, w') \<Rightarrow> (raised, s\<lparr>world := w'\<rparr>))"

text \<open>
  The \<open>try\<close> block of one attempt. It returns the step's result (success, or a soft error
  on the last attempt), goes on to the next attempt after a soft error and the wait
  (\<open>continue\<close>), or ends in an exception: of the conversion of a parameter, of the handler,
  or of the wait.
\<close>

datatype try_result = Returned StepResult | Continue | Caught string

definition try_body ::
  "'w python \<Rightarrow> 'w ExecutorAgent \<Rightarrow> 'w handler \<Rightarrow> string list \<Rightarrow> params \<Rightarrow> nat \<Rightarrow>
   StepResult \<Rightarrow> 'w state \<Rightarrow> try_result \<times> 'w state" where
  "try_body P E h expected ps attempt result s =
     (case try_call P h expected ps s of
        (Raises e, s1) \<Rightarrow> (Caught e, s1)
      | (Returns response, s1) \<Rightarrow>
          (case response_error response of
             Some err \<Rightarrow>
               if int attempt < max_retries E - 1 then
                 (case sleep P E s1 of
                    (None, s2) \<Rightarrow> (Continue, s2)
                  | (Some e, s2) \<Rightarrow> (Caught e, s2))
               else (Returned (result\<lparr>error := err\<rparr>), s1)
           | None \<Rightarrow> (Returned (result\<lparr>success := True, data := response\<rparr>), s1)))"

text \<open>
  The retry loop, \<open>for attempt in range(max_retries)\<close>, over the attempts still to come.
  An exception caught on an attempt that is not the last one waits and goes on to the
  next attempt; on the last one it sets \<open>error\<close> and the loop ends. An exception of the
  wait inside the \<open>except\<close> block is caught by nothing: it leaves \<open>_execute_step\<close> (\<open>Inl\<close>
  its text).
\<close>

fun retry_loop ::
  "'w python \<Rightarrow> 'w ExecutorAgent \<Rightarrow> 'w handler \<Rightarrow> string list \<Rightarrow> params \<Rightarrow>
   nat list \<Rightarrow> StepResult \<Rightarrow> 'w state \<Rightarrow> (string + StepResult) \<times> 'w state" where
  "retry_loop P E h expected ps [] result s = (Inr result, s)"
| "retry_loop P E h expected ps (attempt # rest) result s =
     (let result1 = result\<lparr>attempts := int attempt + 1\<rparr> in
      case try_body P E h expected ps attempt result1 s of
        (Returned r, s1) \<Rightarrow> (Inr r, s1)
      | (Continue, s1) \<Rightarrow> retry_loop P E h expected ps rest result1 s1
      | (Caught e, s1) \<Rightarrow>
          if int attempt < max_retries E - 1 then
            (case sleep P E s1 of
               (None, s2) \<Rightarrow> retry_loop P E h expected ps rest result1 s2
             | (Some e', s2) \<Rightarrow> (Inl e', s2))
          else retry_loop P E h expected ps rest (result1\<lparr>error := PStr e\<rparr>) s1)"

text \<open>\<open>str(x)\<close> of what inference returned, as the f-string of the error message prints it.\<close>

definition str_of_inferred :: "string option \<Rightarrow> string" where
  "str_of_inferred x = (case x of None \<Rightarrow> ''None'' | Some f \<Rightarrow> f)"

text \<open>A text between single quotes.\<close>

definition quoted :: "string \<Rightarrow> string" where
  "quoted x = [CHR 0x27] @ x @ [CHR 0x27]"

definition initial_result :: "step \<Rightarrow> StepResult" where
  "initial_result st =
     \<lparr>step_id = get_or (PStr ''unknown'') (s_step_id st),
      tool = lower (get_or [] (s_tool st)),
      func = get_or [] (s_func st),
      action = get_or [] (s_action st),
      success = False,
      data = PNone,
      error = PNone,
      attempts = 0\<rparr>"

text \<open>
  \<open>_execute_step\<close>: it returns the step's result (\<open>Inr\<close>) or, when the wait between two
  attempts raises, is left by that exception (\<open>Inl\<close>).
\<close>

definition execute_step ::
  "'w python \<Rightarrow> 'w ExecutorAgent \<Rightarrow> step \<Rightarrow> 'w state \<Rightarrow>
   (string + StepResult) \<times> 'w state" where
  "execute_step P E st s0 =
     (let s = s0\<lparr>step_calls := step_calls s0 + 1\<rparr>;
          tool_name = lower (get_or [] (s_tool st));
          result = initial_result st
      in case resolve E st of
           UnknownTool \<Rightarrow> (Inr (result\<lparr>error := PStr (''Unknown tool: '' @ tool_name)\<rparr>), s)
         | UnknownFunction inferred \<Rightarrow>
             (Inr (result\<lparr>error :=
                         PStr (''Unknown function '' @ quoted (str_of_inferred inferred)
                               @ '' for tool '' @ quoted tool_name)\<rparr>), s)
         | NoHandler function_name \<Rightarrow>
             (Inr (result\<lparr>error :=
                         PStr (''No handler found for function: '' @ function_name)\<rparr>), s)
         | Resolved function_name expected h \<Rightarrow>
             retry_loop P E h expected (s_parameters st) [0..<nat (max_retries E)] result s)"

section \<open>The plan executor\<close>

text \<open>
  The report of \<open>execute_plan\<close>. The keys \<open>error\<close> and \<open>execution_time\<close> are set on some
  paths only. While the plan runs, \<open>tools_used\<close> is a Python set: it is kept as the list of
  its elements in the order they were added, and \<open>set_add\<close> is \<open>s.add(x)\<close>.
\<close>

record ExecutionReport =
  report_plan :: plan
  step_results :: "StepResult list"
  tools_used :: "string list"
  total_steps :: nat
  successful_steps :: nat
  failed_steps :: nat
  execution_start :: pyval
  report_error :: "string option"
  execution_time :: "pyval option"

definition set_add :: "string list \<Rightarrow> string \<Rightarrow> string list" where
  "set_add xs x = (if x \<in> set xs then xs else xs @ [x])"

text \<open>
  The loop \<open>for step in steps\<close> of \<open>execute_plan\<close>. An exception that leaves
  \<open>_execute_step\<close> leaves the loop and \<open>execute_plan\<close> as well.
\<close>

fun run_steps ::
  "'w python \<Rightarrow> 'w ExecutorAgent \<Rightarrow> step list \<Rightarrow> ExecutionReport \<Rightarrow> 'w state \<Rightarrow>
   (string + ExecutionReport) \<times> 'w state" where
  "run_steps P E [] results s = (Inr results, s)"
| "run_steps P E (st # rest) results s =
     (case execute_step P E st s of
        (Inl e, s1) \<Rightarrow> (Inl e, s1)
      | (Inr step_result, s1) \<Rightarrow>
          let results1 = results\<lparr>step_results := step_results results @ [step_result]\<rparr>;
              results2 =
                (if success step_result
                   then results1\<lparr>successful_steps := successful_steps results1 + 1,
                                 tools_used := set_add (tools_used results1)
                                                 (get_or ''unknown'' (s_tool st))\<rparr>
                 else results1\<lparr>failed_steps := failed_steps results1 + 1\<rparr>)
          in run_steps P E rest results2 s1)"

definition execute_plan ::
  "'w python \<Rightarrow> 'w ExecutorAgent \<Rightarrow> plan \<Rightarrow> 'w state \<Rightarrow>
   (string + ExecutionReport) \<times> 'w state" where
  "execute_plan P E pl s =
     (let results =
            \<lparr>report_plan = pl,
             step_results = [],
             tools_used = [],
             total_steps = length (steps pl),
             successful_steps = 0,
             failed_steps = 0,
             execution_start = time_time P (world s),
             report_error = None,
             execution_time = None\<rparr>
      in if steps pl = [] then
           (Inr (results\<lparr>report_error := Some ''No executable steps in plan'',
                          execution_time := Some (PInt 0)\<rparr>), s)
         else
           (case run_steps P E (steps pl) results s of
              (Inl e, s1) \<Rightarrow> (Inl e, s1)
            | (Inr results1, s1) \<Rightarrow>
                (Inr (results1\<lparr>execution_time :=
                                  Some (round_diff P (time_time P (world s1))
                                          (execution_start results1)),
                                tools_used := set_order P (tools_used results1)\<rparr>), s1)))"

section \<open>The result verifier\<close>

definition nl :: string where
  "nl = [CHR 0x0A]"

record failed_step =
  fs_step_id :: pyval
  fs_action :: string
  fs_error :: pyval

text \<open>
  The dictionary that \<open>verify_and_format\<close> returns; a key that some path leaves out is an
  optional field.
\<close>

record VerificationResult =
  is_complete :: "bool option"
  formatted_answer :: "string option"
  missing_info :: "string list option"
  v_failed_steps :: "failed_step list"
  suggestions :: "string list option"
  v_successful_steps :: "nat option"
  v_total_steps :: "nat option"

text \<open>
  Modelled from the spec: the text-generation client (\<open>llm/client.py\<close>, with
  \<open>get_llm_client\<close> and \<open>verify_results\<close>) is not among the sources. Following the spec's
  contract it is a capability that, given the task, the plan and all step results, either
  fails or replies with a dictionary holding a string \<open>formatted_answer\<close>, a boolean
  \<open>is_complete\<close>, a list \<open>missing_info\<close> and possibly \<open>suggestions\<close>; a key of the reply may
  be missing. Creating the client on first use is part of the call.
\<close>

record llm_reply =
  reply_formatted_answer :: "string option"
  reply_is_complete :: "bool option"
  reply_missing_info :: "string list option"
  reply_suggestions :: "string list option"

type_synonym 'w llm =
  "string \<Rightarrow> plan \<Rightarrow> StepResult list \<Rightarrow> 'w \<Rightarrow> llm_reply outcome \<times> 'w"

text \<open>
  The renderers of the payloads of the three tools (\<open>_format_github_data\<close>,
  \<open>_format_weather_data\<close>, \<open>_format_news_data\<close>) print fields of arbitrary payloads with
  \<open>str\<close> and symbols outside ASCII. Each is a function of the payload alone that returns a
  text or raises (\<open>Inl\<close>); what is proved below holds for any such functions.
\<close>

record renderers =
  format_github_data :: "pyval \<Rightarrow> string + string"
  format_weather_data :: "pyval \<Rightarrow> string + string"
  format_news_data :: "pyval \<Rightarrow> string + string"

definition format_tool_data ::
  "'w python \<Rightarrow> renderers \<Rightarrow> string \<Rightarrow> pyval \<Rightarrow> string + string" where
  "format_tool_data P R tool_name payload =
     (if tool_name = ''github'' then format_github_data R payload
      else if tool_name = ''weather'' then format_weather_data R payload
      else if tool_name = ''news'' then format_news_data R payload
      else Inr (py_str P payload))"

definition format_failure_note :: "'w python \<Rightarrow> failed_step list \<Rightarrow> string" where
  "format_failure_note P failed =
     (if failed = [] then []
      else join nl
             ((nl @ nl @ ''**Note:** Some information could not be retrieved:'')
              # map (\<lambda>st. ''- '' @ fs_action st @ '': '' @ py_str P (fs_error st)) failed))"

definition format_all_failed ::
  "'w python \<Rightarrow> string \<Rightarrow> failed_step list \<Rightarrow> VerificationResult" where
  "format_all_failed P original_task failed =
     (let error_details =
            map (\<lambda>st. ''- Step '' @ py_str P (fs_step_id st) @ '': '' @ py_str P (fs_error st))
              failed
      in \<lparr>is_complete = Some False,
          formatted_answer = Some
            (''I was unable to complete your request: '' @ [CHR 0x22] @ original_task
             @ [CHR 0x22] @ nl @ nl
             @ ''All execution steps failed with the following errors:'' @ nl
             @ join nl error_details @ nl @ nl
             @ ''**Suggestions:**'' @ nl
             @ ''- Check that all required API keys are configured in your .env file'' @ nl
             @ ''- Verify your internet connection'' @ nl
             @ ''- Try simplifying your query'' @ nl
             @ ''- Check if the requested resources exist (e.g., valid city names, repository names)''),
          missing_info = Some [''All requested information due to execution failures''],
          v_failed_steps = failed,
          suggestions = Some [''Verify API keys are configured'',
                              ''Check internet connection'',
                              ''Try a simpler query''],
          v_successful_steps = None,
          v_total_steps = None\<rparr>)"

text \<open>
  The loop of \<open>_basic_format\<close> over the step results: two parts for each successful one.
  A renderer that raises ends it.
\<close>

fun basic_parts ::
  "'w python \<Rightarrow> renderers \<Rightarrow> StepResult list \<Rightarrow> string list \<Rightarrow> string + string list" where
  "basic_parts P R [] formatted_parts = Inr formatted_parts"
| "basic_parts P R (r # rest) formatted_parts =
     (if success r then
        (case format_tool_data P R (tool r) (data r) of
           Inl e \<Rightarrow> Inl e
         | Inr rendered \<Rightarrow>
             basic_parts P R rest
               (formatted_parts @ [nl @ ''**'' @ upper (tool r) @ '' Results:**'', rendered]))
      else basic_parts P R rest formatted_parts)"

definition basic_format ::
  "'w python \<Rightarrow> renderers \<Rightarrow> string \<Rightarrow> StepResult list \<Rightarrow> failed_step list \<Rightarrow>
   string + VerificationResult" where
  "basic_format P R original_task results failed =
     (case basic_parts P R results [''**Results for:** '' @ original_task @ nl] of
        Inl e \<Rightarrow> Inl e
      | Inr parts \<Rightarrow>
          let formatted_parts =
                (if failed \<noteq> [] then parts @ [format_failure_note P failed] else parts)
          in Inr \<lparr>is_complete = Some (length failed = 0),
                  formatted_answer = Some (join nl formatted_parts),
                  missing_info = None,
                  v_failed_steps = failed,
                  suggestions = Some [],
                  v_successful_steps = None,
                  v_total_steps = None\<rparr>)"

definition failed_of :: "StepResult list \<Rightarrow> failed_step list" where
  "failed_of results =
     map (\<lambda>r. \<lparr>fs_step_id = step_id r, fs_action = action r, fs_error = error r\<rparr>)
       (filter (\<lambda>r. \<not> success r) results)"

text \<open>
  \<open>verify_and_format\<close>. An exception of the text-generation call is caught and answered
  by \<open>_basic_format\<close>; an exception inside \<open>_basic_format\<close> leaves the function (\<open>Inl\<close>).
\<close>

definition verify_and_format ::
  "'w python \<Rightarrow> renderers \<Rightarrow> 'w llm \<Rightarrow> string \<Rightarrow> plan \<Rightarrow> ExecutionReport \<Rightarrow> 'w state \<Rightarrow>
   (string + VerificationResult) \<times> 'w state" where
  "verify_and_format P R verify_results original_task pl execution_results s =
     (let results = step_results execution_results in
      if results = [] then
        (Inr \<lparr>is_complete = Some False,
              formatted_answer = Some
                ''No results were obtained. The execution plan was empty or all steps failed.'',
              missing_info = Some [''All requested information''],
              v_failed_steps = [],
              suggestions = Some [''Please try rephrasing your query''],
              v_successful_steps = None,
              v_total_steps = None\<rparr>, s)
      else
        let failed = failed_of results;
            successful_results = filter success results
        in if successful_results = [] then (Inr (format_all_failed P original_task failed), s)
           else
             (case verify_results original_task pl results (world s) of
                (out, w') \<Rightarrow>
                  let s1 = s\<lparr>world := w', llm_calls := llm_calls s + 1\<rparr> in
                  (case out of
                     Raises e \<Rightarrow> (basic_format P R original_task results failed, s1)
                   | Returns verification \<Rightarrow>
                       (Inr \<lparr>is_complete = reply_is_complete verification,
                             formatted_answer =
                               (case reply_formatted_answer verification of
                                  None \<Rightarrow> None
                                | Some answer \<Rightarrow>
                                    if failed \<noteq> [] \<and> answer \<noteq> []
                                      then Some (answer @ format_failure_note P failed)
                                    else Some answer),
                             missing_info = reply_missing_info verification,
                             v_failed_steps = failed,
                             suggestions = reply_suggestions verification,
                             v_successful_steps = Some (length successful_results),
                             v_total_steps = Some (length results)\<rparr>, s1))))"

section \<open>Notions used in the statements\<close>

text \<open>What a call has returned, if it has returned and not raised.\<close>

definition returned :: "(string + 'a) \<times> 's \<Rightarrow> 'a option" where
  "returned x = (case fst x of Inl e \<Rightarrow> None | Inr r \<Rightarrow> Some r)"

text \<open>
  What the retry loop promises when it starts attempt \<open>k\<close> of \<open>n\<close> with a result \<open>r\<close> that
  is not successful, in the state \<open>s\<close>, and ends with \<open>r'\<close> and \<open>s'\<close>.
\<close>

definition loop_post ::
  "'w python \<Rightarrow> 'w handler \<Rightarrow> string list \<Rightarrow> params \<Rightarrow> nat \<Rightarrow> nat \<Rightarrow>
   StepResult \<Rightarrow> 'w state \<Rightarrow> StepResult \<Rightarrow> 'w state \<Rightarrow> bool" where
  "loop_post P h ex ps k n r s r' s' =
     (int k + 1 \<le> attempts r' \<and> attempts r' \<le> int n \<and>
      (success r' \<longrightarrow>
         error r' = error r \<and> (\<exists>s0. fst (try_call P h ex ps s0) = Returns (data r'))) \<and>
      (\<not> success r' \<longrightarrow> error r' \<noteq> PNone) \<and>
      handler_calls s \<le> handler_calls s' \<and> step_calls s' = step_calls s \<and>
      llm_calls s' = llm_calls s)"

text \<open>
  Resolution failed before any invocation: the tool is unknown, no function was found, or
  no handler is bound to the function.
\<close>

definition resolution_failed :: "'w ExecutorAgent \<Rightarrow> step \<Rightarrow> bool" where
  "resolution_failed E st =
     (case resolve E st of Resolved function_name expected h \<Rightarrow> False | _ \<Rightarrow> True)"

text \<open>
  The state of the system after \<open>k\<close> attempts at calling the handler, each followed by the
  wait and each beginning in the state that the wait before has left.
\<close>

definition attempt_and_wait ::
  "'w python \<Rightarrow> 'w ExecutorAgent \<Rightarrow> 'w handler \<Rightarrow> string list \<Rightarrow> params \<Rightarrow>
   'w state \<Rightarrow> 'w state" where
  "attempt_and_wait P E h expected ps s = snd (sleep P E (snd (try_call P h expected ps s)))"

definition after_attempts ::
  "'w python \<Rightarrow> 'w ExecutorAgent \<Rightarrow> 'w handler \<Rightarrow> string list \<Rightarrow> params \<Rightarrow> nat \<Rightarrow>
   'w state \<Rightarrow> 'w state" where
  "after_attempts P E h expected ps k s = (attempt_and_wait P E h expected ps ^^ k) s"

text \<open>The state in which the step executor starts to work: its call has been counted.\<close>

definition entered :: "'w state \<Rightarrow> 'w state" where
  "entered s = s\<lparr>step_calls := step_calls s + 1\<rparr>"

text \<open>The tool names that \<open>execute_plan\<close> reads off the steps of a plan, in plan order.\<close>

definition step_tools :: "plan \<Rightarrow> string list" where
  "step_tools pl = map (\<lambda>st. get_or ''unknown'' (s_tool st)) (steps pl)"

text \<open>
  First-occurrence order, in the words of the specification: every name once, in the order
  in which the names first appear.
\<close>

definition first_occurrence_order :: "string list \<Rightarrow> string list" where
  "first_occurrence_order xs = foldl set_add [] xs"

text \<open>The one promise of Python about \<open>list(s)\<close> for a set \<open>s\<close>: every element, once.\<close>

definition enumerates_once :: "(string list \<Rightarrow> string list) \<Rightarrow> bool" where
  "enumerates_once order =
     (\<forall>xs. distinct xs \<longrightarrow> distinct (order xs) \<and> set (order xs) = set xs)"

text \<open>What running one step can produce: the step's result in some state of the system.\<close>

definition result_of_step ::
  "'w python \<Rightarrow> 'w ExecutorAgent \<Rightarrow> step \<Rightarrow> StepResult \<Rightarrow> bool" where
  "result_of_step P E st r = (\<exists>s1 s2. execute_step P E st s1 = (Inr r, s2))"

text \<open>The lines that the two deterministic summaries of the verifier print for a failed step.\<close>

definition failed_step_line :: "'w python \<Rightarrow> StepResult \<Rightarrow> string" where
  "failed_step_line P r = ''- Step '' @ py_str P (step_id r) @ '': '' @ py_str P (error r)"

definition failure_note_line :: "'w python \<Rightarrow> StepResult \<Rightarrow> string" where
  "failure_note_line P r = ''- '' @ action r @ '': '' @ py_str P (error r)"

text \<open>The tool names of the steps whose result is successful, in plan order.\<close>

definition successful_tools :: "step list \<Rightarrow> StepResult list \<Rightarrow> string list" where
  "successful_tools sts rs =
     map (\<lambda>(st, r). get_or ''unknown'' (s_tool st))
       (filter (\<lambda>(st, r). success r) (zip sts rs))"

text \<open>The note that the verifier appends for the failed steps of a report.\<close>

definition report_failure_note :: "'w python \<Rightarrow> ExecutionReport \<Rightarrow> string" where
  "report_failure_note P rep = format_failure_note P (failed_of (step_results rep))"

section \<open>Example inputs\<close>

text \<open>
  A Python runtime for the examples, whose world is a clock that ticks at every call of a
  handler or of the text-generation capability and at every wait. The wait raises for a
  negative number, with the text that \<open>time.sleep\<close> gives, and for what is no number. No example has a parameter \<open>limit\<close>,
  \<open>lat\<close> or \<open>lon\<close>, and none prints a number or a container: the conversions below are
  exact on integers and Booleans, \<open>str\<close> on \<open>None\<close>, Booleans and strings, and the other
  cases are never evaluated. A set is enumerated in the order of insertion, and in
  \<open>reversing_python\<close> in the opposite order.
\<close>

fun example_int :: "pyval \<Rightarrow> coerced" where
  "example_int (PInt i) = Coerced (PInt i)"
| "example_int (PBool b) = Coerced (PInt (if b then 1 else 0))"
| "example_int _ = CoerceError"

fun example_float :: "pyval \<Rightarrow> coerced" where
  "example_float (PInt i) = Coerced (PFloat i 0)"
| "example_float (PFloat m e) = Coerced (PFloat m e)"
| "example_float _ = CoerceError"

fun example_str :: "pyval \<Rightarrow> string" where
  "example_str (PStr s) = s"
| "example_str PNone = ''None''"
| "example_str (PBool b) = (if b then ''True'' else ''False'')"
| "example_str _ = ''<object>''"

fun example_round_diff :: "pyval \<Rightarrow> pyval \<Rightarrow> pyval" where
  "example_round_diff (PFloat x e) (PFloat y e') = (if e = e' then PFloat (x - y) e else PNone)"
| "example_round_diff _ _ = PNone"

fun example_sleep :: "pyval \<Rightarrow> nat \<Rightarrow> string option \<times> nat" where
  "example_sleep (PFloat m e) w =
     (if m < 0 then (Some ''sleep length must be non-negative'', w) else (None, Suc w))"
| "example_sleep (PInt i) w =
     (if i < 0 then (Some ''sleep length must be non-negative'', w) else (None, Suc w))"
| "example_sleep (PBool b) w = (None, Suc w)"
| "example_sleep _ w = (Some ''a number is required'', w)"

definition example_python :: "nat python" where
  "example_python =
     \<lparr>py_int = example_int, py_float = example_float, py_str = example_str,
      set_order = (\<lambda>xs. xs), time_time = (\<lambda>w. PFloat (int w) 0),
      round_diff = example_round_diff, time_sleep = example_sleep\<rparr>"

text \<open>
  Handlers: one that succeeds, one that reports a soft error as the GitHub client does for
  a 404, one that raises, one that returns \<open>None\<close>, one that raises an exception without
  text, and one whose error marker is a number.
\<close>

definition ok_handler :: "nat handler" where
  "ok_handler p w = (Returns (PDict [(''success'', PBool True)]), Suc w)"

definition failing_handler :: "nat handler" where
  "failing_handler p w = (Returns (PDict [(''error'', PStr ''Resource not found'')]), Suc w)"

definition raising_handler :: "nat handler" where
  "raising_handler p w = (Raises ''Request timed out'', Suc w)"

definition none_handler :: "nat handler" where
  "none_handler p w = (Returns PNone, Suc w)"

definition assert_handler :: "nat handler" where
  "assert_handler p w = (Raises [], Suc w)"

definition status_handler :: "nat handler" where
  "status_handler p w = (Returns (PDict [(''error'', PInt 404)]), Suc w)"

text \<open>
  A registry with the three registered tools; \<open>registry_with\<close> rebinds one tool to a single
  function that takes every parameter, and \<open>calendar_executor\<close> knows a fourth tool that
  declares no function.
\<close>

definition example_registry :: "nat registry" where
  "example_registry =
     [''github'' \<mapsto>
        [''search_repositories'' \<mapsto>
           \<lparr>parameters = [''query'', ''limit''], handler = Some failing_handler\<rparr>],
      ''weather'' \<mapsto>
        [''get_current_weather'' \<mapsto>
           \<lparr>parameters = [''city''], handler = Some ok_handler\<rparr>],
      ''news'' \<mapsto>
        [''search_news'' \<mapsto>
           \<lparr>parameters = [''query''], handler = Some raising_handler\<rparr>]]"

definition registry_with :: "string \<Rightarrow> string \<Rightarrow> nat handler \<Rightarrow> nat registry" where
  "registry_with tool_name function_name h =
     example_registry
       (tool_name \<mapsto> [function_name \<mapsto> \<lparr>parameters = [], handler = Some h\<rparr>])"

definition executor_of :: "int \<Rightarrow> nat registry \<Rightarrow> nat ExecutorAgent" where
  "executor_of n reg = \<lparr>max_retries = n, retry_delay = PFloat 1 0, tools_registry = reg\<rparr>"

definition example_executor :: "nat ExecutorAgent" where
  "example_executor = executor_of 3 example_registry"

definition negative_delay_executor :: "nat ExecutorAgent" where
  "negative_delay_executor = example_executor\<lparr>retry_delay := PFloat (- 1) 0\<rparr>"


text \<open>The steps, plans and reports of the examples, run from the state \<open>state0\<close>.\<close>

definition state0 :: "nat state" where
  "state0 = \<lparr>world = 0, handler_calls = 0, step_calls = 0, llm_calls = 0\<rparr>"

definition calendar_step :: step where
  "calendar_step =
     \<lparr>s_step_id = Some (PStr ''s1''), s_tool = Some ''Calendar'',
      s_func = Some ''list_events'', s_action = Some ''List events'', s_parameters = []\<rparr>"

definition weather_step :: step where
  "weather_step =
     \<lparr>s_step_id = Some (PStr ''s2''), s_tool = Some ''weather'',
      s_func = Some ''get_current_weather'', s_action = Some ''Get weather'',
      s_parameters = [(''city'', PStr ''Paris'')]\<rparr>"

definition news_step :: step where
  "news_step =
     \<lparr>s_step_id = Some (PStr ''s4''), s_tool = Some ''news'', s_func = Some ''search_news'',
      s_action = Some ''Find news'', s_parameters = [(''query'', PStr ''provers'')]\<rparr>"

definition github_step :: step where
  "github_step =
     \<lparr>s_step_id = Some (PStr ''s3''), s_tool = Some ''github'', s_func = None,
      s_action = Some ''Search repos'', s_parameters = [(''query'', PStr ''isabelle'')]\<rparr>"

definition reversing_python :: "nat python" where
  "reversing_python = example_python\<lparr>set_order := rev\<rparr>"

definition empty_plan :: plan where
  "empty_plan = \<lparr>task = Some ''Nothing to do'', steps = []\<rparr>"

definition weather_github_plan :: plan where
  "weather_github_plan =
     \<lparr>task = Some ''Weather and repos'', steps = [weather_step, github_step]\<rparr>"

definition github_weather_plan :: plan where
  "github_weather_plan =
     \<lparr>task = Some ''Repos and weather'', steps = [github_step, weather_step]\<rparr>"

definition github_news_plan :: plan where
  "github_news_plan = \<lparr>task = Some ''Repos and news'', steps = [github_step, news_step]\<rparr>"

definition all_ok_executor :: "nat ExecutorAgent" where
  "all_ok_executor = executor_of 3 (registry_with ''github'' ''search_repositories'' ok_handler)"

text \<open>
  Renderers that print one fixed line for every payload, and three text-generation
  capabilities: one that answers, one whose answer is the empty string, and one that
  fails.
\<close>

definition example_renderers :: renderers where
  "example_renderers =
     \<lparr>format_github_data = (\<lambda>payload. Inr ''- (repositories)''),
      format_weather_data = (\<lambda>payload. Inr ''- (weather)''),
      format_news_data = (\<lambda>payload. Inr ''- (articles)'')\<rparr>"

definition answering_llm :: "nat llm" where
  "answering_llm original_task pl results w =
     (Returns \<lparr>reply_formatted_answer = Some ''It is sunny in Paris.'',
               reply_is_complete = Some False,
               reply_missing_info = Some [''repositories''],
               reply_suggestions = None\<rparr>, Suc w)"

definition silent_llm :: "nat llm" where
  "silent_llm original_task pl results w =
     (Returns \<lparr>reply_formatted_answer = Some [],
               reply_is_complete = Some False,
               reply_missing_info = Some [],
               reply_suggestions = None\<rparr>, Suc w)"

definition broken_llm :: "nat llm" where
  "broken_llm original_task pl results w = (Raises ''API key missing'', w)"

text \<open>
  The reports that \<open>execute_plan\<close> returns for two of the plans: in \<open>mixed_report\<close> the first
  step has failed and the second succeeded, in \<open>failed_report\<close> both have failed.
\<close>

definition github_failed :: StepResult where
  "github_failed =
     \<lparr>step_id = PStr ''s3'', tool = ''github'', func = [], action = ''Search repos'',
      success = False, data = PNone, error = PStr ''Resource not found'', attempts = 3\<rparr>"

definition weather_ok :: StepResult where
  "weather_ok =
     \<lparr>step_id = PStr ''s2'', tool = ''weather'', func = ''get_current_weather'',
      action = ''Get weather'', success = True, data = PDict [(''success'', PBool True)],
      error = PNone, attempts = 1\<rparr>"

definition news_failed :: StepResult where
  "news_failed =
     \<lparr>step_id = PStr ''s4'', tool = ''news'', func = ''search_news'', action = ''Find news'',
      success = False, data = PNone, error = PStr ''Request timed out'', attempts = 3\<rparr>"

definition mixed_report :: ExecutionReport where
  "mixed_report =
     \<lparr>report_plan = github_weather_plan,
      step_results = [github_failed, weather_ok],
      tools_used = [''weather''],
      total_steps = 2, successful_steps = 1, failed_steps = 1,
      execution_start = PFloat 0 0, report_error = None,
      execution_time = Some (PFloat 6 0)\<rparr>"

definition failed_report :: ExecutionReport where
  "failed_report =
     \<lparr>report_plan = github_news_plan,
      step_results = [github_failed, news_failed],
      tools_used = [],
      total_steps = 2, successful_steps = 0, failed_steps = 2,
      execution_start = PFloat 0 0, report_error = None,
      execution_time = Some (PFloat 10 0)\<rparr>"

section \<open>The retry loop and the step executor: lemmas\<close>

lemma returned_iff: "returned x = Some r \<longleftrightarrow> x = (Inr r, snd x)"
  by (cases x) (auto simp: returned_def split: sum.splits)

lemma try_call_counters:
  "try_call P h ex ps s = (out, s1) \<Longrightarrow>
     handler_calls s \<le> handler_calls s1 \<and> step_calls s1 = step_calls s \<and> llm_calls s1 = llm_calls s"
  by (auto simp: try_call_def split: sum.splits prod.splits)

lemma sleep_counters:
  "sleep P E s = (raised, s1) \<Longrightarrow>
     handler_calls s1 = handler_calls s \<and> step_calls s1 = step_calls s \<and> llm_calls s1 = llm_calls s"
  by (auto simp: sleep_def split: prod.splits)

lemma try_call_Returns:
  "fst (try_call P h ex ps s) = Returns v \<Longrightarrow> \<exists>p w. fst (h p w) = Returns v"
  by (auto simp: try_call_def split: sum.splits prod.splits) (metis fst_conv)

lemma response_error_not_None: "response_error v = Some err \<Longrightarrow> err \<noteq> PNone"
  by (cases v) (auto split: if_splits)

lemma try_body_counters:
  assumes "try_body P E h ex ps k r s = (res, s1)"
  shows "handler_calls s \<le> handler_calls s1 \<and> step_calls s1 = step_calls s \<and>
         llm_calls s1 = llm_calls s"
proof -
  obtain out s0 where tc: "try_call P h ex ps s = (out, s0)" by (cases "try_call P h ex ps s")
  obtain raised s2 where sl: "sleep P E s0 = (raised, s2)" by (cases "sleep P E s0")
  from assms tc sl have "s1 = s0 \<or> s1 = s2"
    by (auto simp: try_body_def split: outcome.splits option.splits if_splits)
  with try_call_counters[OF tc] sleep_counters[OF sl] show ?thesis by auto
qed

lemma try_body_Returned:
  assumes "try_body P E h ex ps k r s = (Returned r', s1)"
  shows "(\<exists>v. fst (try_call P h ex ps s) = Returns v \<and> r' = r\<lparr>success := True, data := v\<rparr>) \<or>
         (\<exists>err. err \<noteq> PNone \<and> r' = r\<lparr>error := err\<rparr>)"
proof -
  obtain out s0 where tc: "try_call P h ex ps s = (out, s0)" by (cases "try_call P h ex ps s")
  show ?thesis
  proof (cases out)
    case (Raises e)
    with assms tc show ?thesis by (simp add: try_body_def)
  next
    case (Returns v)
    show ?thesis
    proof (cases "response_error v")
      case None
      with assms tc Returns have "r' = r\<lparr>success := True, data := v\<rparr>"
        by (simp add: try_body_def)
      then show ?thesis using tc Returns by simp
    next
      case (Some err)
      with assms tc Returns have "r' = r\<lparr>error := err\<rparr>"
        by (auto simp: try_body_def split: if_splits prod.splits option.splits)
      then show ?thesis using response_error_not_None[OF Some] by blast
    qed
  qed
qed

lemma try_body_Continue:
  assumes "try_body P E h ex ps k r s = (Continue, s1)"
  shows "int k < max_retries E - 1"
proof -
  obtain out s0 where tc: "try_call P h ex ps s = (out, s0)" by (cases "try_call P h ex ps s")
  from assms tc show ?thesis
    by (auto simp: try_body_def split: outcome.splits option.splits if_splits prod.splits)
qed

lemma loop_post_step:
  assumes "loop_post P h ex ps (Suc k) n (r\<lparr>attempts := int k + 1\<rparr>) s1 r' s'"
    and "handler_calls s \<le> handler_calls s1" "step_calls s1 = step_calls s"
    and "llm_calls s1 = llm_calls s"
  shows "loop_post P h ex ps k n r s r' s'"
  using assms by (auto simp: loop_post_def)

lemma retry_loop_upt:
  assumes n: "n = nat (max_retries E)"
  shows "retry_loop P E h ex ps [k..<n] r s = (Inr r', s') \<Longrightarrow> k < n \<Longrightarrow> \<not> success r \<Longrightarrow>
         loop_post P h ex ps k n r s r' s'"
proof (induction "n - k" arbitrary: k r s)
  case 0
  then show ?case by simp
next
  case (Suc m)
  let ?r1 = "r\<lparr>attempts := int k + 1\<rparr>"
  have upt: "[k..<n] = k # [Suc k..<n]" using Suc.prems(2) by (simp add: upt_conv_Cons)
  have last_iff: "(int k < max_retries E - 1) = (Suc k < n)" using n by auto
  obtain res s1 where tb: "try_body P E h ex ps k ?r1 s = (res, s1)"
    by (cases "try_body P E h ex ps k ?r1 s")
  note cnt = try_body_counters[OF tb]
  have IH: "loop_post P h ex ps k n r s r' s'"
    if a: "retry_loop P E h ex ps [Suc k..<n] ?r1 s2 = (Inr r', s')" and b: "Suc k < n"
      and c: "handler_calls s \<le> handler_calls s2" "step_calls s2 = step_calls s"
        "llm_calls s2 = llm_calls s"
    for s2
  proof -
    have "m = n - Suc k" using Suc.hyps(2) by simp
    from Suc.hyps(1)[OF this a b] Suc.prems(3)
    have "loop_post P h ex ps (Suc k) n ?r1 s2 r' s'" by simp
    then show ?thesis using c by (rule loop_post_step)
  qed
  show ?case
  proof (cases res)
    case (Returned r'')
    with Suc.prems(1) tb have eq: "r' = r''" "s' = s1" by (simp_all add: upt)
    from try_body_Returned[OF tb[unfolded Returned]] show ?thesis
    proof
      assume "\<exists>v. fst (try_call P h ex ps s) = Returns v \<and> r'' = ?r1\<lparr>success := True, data := v\<rparr>"
      then show ?thesis using eq cnt Suc.prems(2) by (auto simp: loop_post_def)
    next
      assume "\<exists>err. err \<noteq> PNone \<and> r'' = ?r1\<lparr>error := err\<rparr>"
      then show ?thesis using eq cnt Suc.prems(2,3) by (auto simp: loop_post_def)
    qed
  next
    case Continue
    from try_body_Continue[OF tb[unfolded Continue]] have lt: "Suc k < n" by (simp add: last_iff)
    from Suc.prems(1) tb Continue
    have "retry_loop P E h ex ps [Suc k..<n] ?r1 s1 = (Inr r', s')" by (simp add: upt)
    from IH[OF this lt] cnt show ?thesis by auto
  next
    case (Caught e)
    show ?thesis
    proof (cases "Suc k < n")
      case True
      obtain raised s2 where sl: "sleep P E s1 = (raised, s2)" by (cases "sleep P E s1")
      from Suc.prems(1) tb Caught True sl
      have "raised = None" "retry_loop P E h ex ps [Suc k..<n] ?r1 s2 = (Inr r', s')"
        by (auto simp: upt last_iff split: option.splits)
      from IH[OF this(2) True] cnt sleep_counters[OF sl] show ?thesis by auto
    next
      case False
      then have "[Suc k..<n] = []" by simp
      with Suc.prems(1) tb Caught False have "r' = ?r1\<lparr>error := PStr e\<rparr>" "s' = s1"
        by (simp_all add: upt last_iff)
      then show ?thesis using cnt Suc.prems(2,3) False by (simp add: loop_post_def)
    qed
  qed
qed

lemma execute_step_unresolved:
  assumes "resolution_failed E st" "execute_step P E st s = (Inr r, s')"
  shows "s' = entered s \<and> attempts r = 0 \<and> \<not> success r \<and> data r = PNone \<and>
         (\<exists>m. error r = PStr m \<and> m \<noteq> [])"
  using assms
  by (auto simp: resolution_failed_def execute_step_def entered_def initial_result_def Let_def
      split: resolution.splits)

lemma execute_step_resolved:
  assumes "resolve E st = Resolved fn ex h" "0 < max_retries E"
    and "execute_step P E st s = (Inr r, s')"
  shows "loop_post P h ex (s_parameters st) 0 (nat (max_retries E)) (initial_result st)
           (entered s) r s'"
proof -
  have "retry_loop P E h ex (s_parameters st) [0..<nat (max_retries E)] (initial_result st)
          (entered s) = (Inr r, s')"
    using assms by (simp add: execute_step_def entered_def Let_def)
  moreover have "0 < nat (max_retries E)" using assms(2) by simp
  moreover have "\<not> success (initial_result st)" by (simp add: initial_result_def)
  ultimately show ?thesis by (rule retry_loop_upt[OF refl])
qed

lemma execute_step_no_attempt:
  assumes "resolve E st = Resolved fn ex h" "max_retries E \<le> 0"
  shows "execute_step P E st s = (Inr (initial_result st), entered s)"
  using assms by (simp add: execute_step_def entered_def Let_def)

section \<open>The plan executor: lemmas\<close>

lemma try_body_fields:
  assumes "try_body P E h ex ps k r s = (Returned r', s1)"
  shows "step_id r' = step_id r \<and> tool r' = tool r \<and> func r' = func r \<and> action r' = action r"
  using try_body_Returned[OF assms] by auto

lemma retry_loop_fields:
  "retry_loop P E h ex ps xs r s = (Inr r', s') \<Longrightarrow>
     step_id r' = step_id r \<and> tool r' = tool r \<and> func r' = func r \<and> action r' = action r"
proof (induction xs arbitrary: r s)
  case Nil
  then show ?case by simp
next
  case (Cons a xs)
  let ?r1 = "r\<lparr>attempts := int a + 1\<rparr>"
  obtain res s1 where tb: "try_body P E h ex ps a ?r1 s = (res, s1)"
    by (cases "try_body P E h ex ps a ?r1 s")
  show ?case
  proof (cases res)
    case (Returned r'')
    with Cons.prems tb have "r' = r''" by simp
    with try_body_fields[OF tb[unfolded Returned]] show ?thesis by simp
  next
    case Continue
    with Cons.prems tb have "retry_loop P E h ex ps xs ?r1 s1 = (Inr r', s')" by simp
    from Cons.IH[OF this] show ?thesis by simp
  next
    case (Caught e)
    obtain raised s2 where sl: "sleep P E s1 = (raised, s2)" by (cases "sleep P E s1")
    from Cons.prems tb Caught sl
    have "retry_loop P E h ex ps xs ?r1 s2 = (Inr r', s') \<or>
          retry_loop P E h ex ps xs (?r1\<lparr>error := PStr e\<rparr>) s1 = (Inr r', s')"
      by (auto simp: Let_def split: if_splits option.splits)
    then show ?thesis by (auto dest!: Cons.IH)
  qed
qed

lemma execute_step_fields:
  assumes "execute_step P E st s = (Inr r, s')"
  shows "step_id r = get_or (PStr ''unknown'') (s_step_id st) \<and>
         tool r = lower (get_or [] (s_tool st)) \<and> func r = get_or [] (s_func st) \<and>
         action r = get_or [] (s_action st)"
proof (cases "resolve E st")
  case (Resolved fn ex h)
  with assms have "retry_loop P E h ex (s_parameters st) [0..<nat (max_retries E)]
      (initial_result st) (entered s) = (Inr r, s')"
    by (simp add: execute_step_def entered_def Let_def)
  from retry_loop_fields[OF this] show ?thesis by (simp add: initial_result_def)
qed (use assms in \<open>auto simp: execute_step_def Let_def initial_result_def\<close>)

lemma run_steps_inv:
  "run_steps P E sts rep s = (Inr rep', s') \<Longrightarrow>
     \<exists>rs. step_results rep' = step_results rep @ rs \<and>
          list_all2 (result_of_step P E) sts rs \<and>
          map step_id rs = map (\<lambda>st. get_or (PStr ''unknown'') (s_step_id st)) sts \<and>
          successful_steps rep' = successful_steps rep + length (filter success rs) \<and>
          failed_steps rep' = failed_steps rep + length (filter (\<lambda>r. \<not> success r) rs) \<and>
          tools_used rep' = foldl set_add (tools_used rep) (successful_tools sts rs) \<and>
          total_steps rep' = total_steps rep \<and> report_plan rep' = report_plan rep \<and>
          execution_start rep' = execution_start rep \<and> report_error rep' = report_error rep"
proof (induction sts arbitrary: rep s)
  case Nil
  then show ?case by (simp add: successful_tools_def)
next
  case (Cons st sts)
  obtain r s1 where ex: "execute_step P E st s = (Inr r, s1)"
    using Cons.prems by (cases "execute_step P E st s") (auto split: sum.splits)
  have ros: "result_of_step P E st r" using ex by (auto simp: result_of_step_def)
  note fld = execute_step_fields[OF ex]
  show ?case
  proof (cases "success r")
    case True
    let ?rep2 = "rep\<lparr>step_results := step_results rep @ [r],
                     successful_steps := successful_steps rep + 1,
                     tools_used := set_add (tools_used rep) (get_or ''unknown'' (s_tool st))\<rparr>"
    from Cons.prems ex True have "run_steps P E sts ?rep2 s1 = (Inr rep', s')"
      by (simp add: Let_def)
    from Cons.IH[OF this] obtain rs where rs:
      "step_results rep' = step_results ?rep2 @ rs"
      "list_all2 (result_of_step P E) sts rs"
      "map step_id rs = map (\<lambda>st. get_or (PStr ''unknown'') (s_step_id st)) sts"
      "successful_steps rep' = successful_steps ?rep2 + length (filter success rs)"
      "failed_steps rep' = failed_steps ?rep2 + length (filter (\<lambda>r. \<not> success r) rs)"
      "tools_used rep' = foldl set_add (tools_used ?rep2) (successful_tools sts rs)"
      "total_steps rep' = total_steps ?rep2" "report_plan rep' = report_plan ?rep2"
      "execution_start rep' = execution_start ?rep2" "report_error rep' = report_error ?rep2"
      by blast
    show ?thesis
      by (rule exI[where x="r # rs"]) (use rs ros fld True in \<open>simp add: successful_tools_def\<close>)
  next
    case False
    let ?rep2 = "rep\<lparr>step_results := step_results rep @ [r],
                     failed_steps := failed_steps rep + 1\<rparr>"
    from Cons.prems ex False have "run_steps P E sts ?rep2 s1 = (Inr rep', s')"
      by (simp add: Let_def)
    from Cons.IH[OF this] obtain rs where rs:
      "step_results rep' = step_results ?rep2 @ rs"
      "list_all2 (result_of_step P E) sts rs"
      "map step_id rs = map (\<lambda>st. get_or (PStr ''unknown'') (s_step_id st)) sts"
      "successful_steps rep' = successful_steps ?rep2 + length (filter success rs)"
      "failed_steps rep' = failed_steps ?rep2 + length (filter (\<lambda>r. \<not> success r) rs)"
      "tools_used rep' = foldl set_add (tools_used ?rep2) (successful_tools sts rs)"
      "total_steps rep' = total_steps ?rep2" "report_plan rep' = report_plan ?rep2"
      "execution_start rep' = execution_start ?rep2" "report_error rep' = report_error ?rep2"
      by blast
    show ?thesis
      by (rule exI[where x="r # rs"]) (use rs ros fld False in \<open>simp add: successful_tools_def\<close>)
  qed
qed

lemma set_foldl_set_add: "set (foldl set_add acc xs) = set acc \<union> set xs"
  by (induction xs arbitrary: acc) (auto simp: set_add_def)

lemma distinct_foldl_set_add: "distinct acc \<Longrightarrow> distinct (foldl set_add acc xs)"
  by (induction xs arbitrary: acc) (auto simp: set_add_def)

lemma set_successful_tools:
  assumes "length sts = length rs"
  shows "set (successful_tools sts rs) =
         {get_or ''unknown'' (s_tool (sts ! i)) | i. i < length sts \<and> success (rs ! i)}"
  using assms by (auto simp: successful_tools_def set_zip image_iff) 

lemma length_filter_split:
  "length (filter P xs) + length (filter (\<lambda>x. \<not> P x) xs) = length xs"
  by (induction xs) auto

lemma execute_plan_nonempty:
  assumes "steps pl \<noteq> []" "execute_plan P E pl s = (Inr rep, s')"
  shows "\<exists>rs. step_results rep = rs \<and> list_all2 (result_of_step P E) (steps pl) rs \<and>
          map step_id rs = map (\<lambda>st. get_or (PStr ''unknown'') (s_step_id st)) (steps pl) \<and>
          successful_steps rep = length (filter success rs) \<and>
          failed_steps rep = length (filter (\<lambda>r. \<not> success r) rs) \<and>
          tools_used rep = set_order P (foldl set_add [] (successful_tools (steps pl) rs)) \<and>
          total_steps rep = length (steps pl)"
proof -
  let ?init = "\<lparr>report_plan = pl, step_results = [], tools_used = [],
      total_steps = length (steps pl), successful_steps = 0, failed_steps = 0,
      execution_start = time_time P (world s), report_error = None, execution_time = None\<rparr>"
  obtain rep1 s1 where run: "run_steps P E (steps pl) ?init s = (Inr rep1, s1)"
    using assms
    by (cases "run_steps P E (steps pl) ?init s")
      (auto simp: execute_plan_def Let_def split: sum.splits)
  with assms have rep: "rep = rep1\<lparr>execution_time :=
       Some (round_diff P (time_time P (world s1)) (execution_start rep1)),
       tools_used := set_order P (tools_used rep1)\<rparr>"
    by (auto simp add: execute_plan_def Let_def)
  from run_steps_inv[OF run] show ?thesis unfolding rep by auto
qed

section \<open>The result verifier: lemmas\<close>

lemma sublist_join: "x \<in> set xs \<Longrightarrow> sublist x (join sep xs)"
proof (induction sep xs rule: join.induct)
  case (1 sep)
  then show ?case by simp
next
  case (2 sep p)
  then show ?case by simp
next
  case (3 sep p q ps)
  show ?case
  proof (cases "x = p")
    case True
    then show ?thesis by simp
  next
    case False
    with 3 have "sublist x (join sep (q # ps))" by simp
    then obtain a b where "join sep (q # ps) = a @ x @ b" by (auto simp: sublist_def)
    then have "join sep (p # q # ps) = (p @ sep @ a) @ x @ b" by simp
    then show ?thesis unfolding sublist_def by blast
  qed
qed

lemma join_snoc: "xs \<noteq> [] \<Longrightarrow> join sep (xs @ [x]) = join sep xs @ sep @ x"
  by (induction sep xs rule: join.induct) auto

lemma join_Cons_nonempty: "x \<noteq> [] \<Longrightarrow> join sep (x # xs) \<noteq> []"
  by (cases xs) auto

lemma basic_parts_extends:
  "basic_parts P R rs acc = Inr parts \<Longrightarrow> \<exists>more. parts = acc @ more"
proof (induction rs arbitrary: acc)
  case Nil
  then show ?case by simp
next
  case (Cons r rs)
  show ?case
  proof (cases "success r")
    case False
    with Cons show ?thesis by simp
  next
    case True
    with Cons.prems obtain rendered where
      "basic_parts P R rs (acc @ [nl @ ''**'' @ upper (tool r) @ '' Results:**'', rendered]) = Inr parts"
      by (auto split: sum.splits)
    from Cons.IH[OF this] obtain more where
      "parts = (acc @ [nl @ ''**'' @ upper (tool r) @ '' Results:**'', rendered]) @ more" by blast
    then have "parts = acc @ ([nl @ ''**'' @ upper (tool r) @ '' Results:**'', rendered] @ more)"
      by simp
    then show ?thesis by blast
  qed
qed

lemma failed_of_nonempty: "\<exists>r\<in>set rs. \<not> success r \<Longrightarrow> failed_of rs \<noteq> []"
  by (auto simp: failed_of_def filter_empty_conv)

lemma failure_note_nonempty: "failed \<noteq> [] \<Longrightarrow> format_failure_note P failed \<noteq> []"
  by (simp add: format_failure_note_def join_Cons_nonempty nl_def)

lemma failure_note_lists:
  assumes "r \<in> set rs" "\<not> success r"
  shows "sublist (failure_note_line P r) (format_failure_note P (failed_of rs))"
proof -
  have ne: "failed_of rs \<noteq> []" using assms by (intro failed_of_nonempty) blast
  have "failure_note_line P r \<in>
          set (map (\<lambda>st. ''- '' @ fs_action st @ '': '' @ py_str P (fs_error st)) (failed_of rs))"
    using assms by (force simp: failed_of_def failure_note_line_def)
  then show ?thesis using ne by (simp add: format_failure_note_def sublist_join)
qed

section \<open>The step executor: claims\<close>

lemma resolution_cases:
  obtains "resolution_failed E st"
  | fn ex h where "resolve E st = Resolved fn ex h" "\<not> resolution_failed E st"
  by (cases "resolve E st") (auto simp: resolution_failed_def)

text \<open>
  C4, as amended. For every step, whenever a handler was invoked at least once the
  result has \<open>1 \<le> attempts \<le> max_retries\<close>. When \<open>max_retries\<close> is at least 1,
  \<open>attempts\<close> is 0 if and only if resolution failed before any invocation (unknown tool,
  no function found, or no handler bound).
\<close>

theorem attempts_range_and_zero:
  assumes "execute_step P E st s = (Inr r, s')"
  shows "(handler_calls s < handler_calls s' \<longrightarrow> 1 \<le> attempts r \<and> attempts r \<le> max_retries E) \<and>
         (0 < max_retries E \<longrightarrow> (attempts r = 0) = resolution_failed E st)"
proof (cases E st rule: resolution_cases)
  case 1
  from execute_step_unresolved[OF 1 assms] show ?thesis using 1 by (simp add: entered_def)
next
  case (2 fn ex h)
  show ?thesis
  proof (cases "0 < max_retries E")
    case True
    from execute_step_resolved[OF 2(1) True assms] show ?thesis using 2(2) True
      by (auto simp: loop_post_def)
  next
    case False
    then have "execute_step P E st s = (Inr (initial_result st), entered s)"
      using 2(1) by (simp add: execute_step_no_attempt)
    with assms False show ?thesis by (auto simp: entered_def)
  qed
qed

theorem attempts_range_and_zero_witness:
  "returned (execute_step example_python example_executor github_step state0)
     = Some github_failed \<and>
   handler_calls state0
     < handler_calls (snd (execute_step example_python example_executor github_step state0)) \<and>
   0 < max_retries example_executor \<and>
   attempts github_failed = 3 \<and>
   attempts github_failed \<le> max_retries example_executor \<and>
   \<not> resolution_failed example_executor github_step"
proof -
  have r: "returned (execute_step example_python example_executor github_step state0)
     = Some github_failed" by code_simp
  then have eq: "execute_step example_python example_executor github_step state0 =
      (Inr github_failed, snd (execute_step example_python example_executor github_step state0))"
    by (simp add: returned_iff)
  have a: "handler_calls state0
     < handler_calls (snd (execute_step example_python example_executor github_step state0))"
    by code_simp
  have b: "0 < max_retries example_executor" by code_simp
  have c: "attempts github_failed = 3" by code_simp
  from attempts_range_and_zero[OF eq] r a b c show ?thesis by simp
qed

text \<open>
  Without the bound on \<open>max_retries\<close> the equivalence fails: an executor built with
  \<open>max_retries = 0\<close> resolves the step, its loop runs no attempt, and \<open>attempts\<close> stays 0.
\<close>

theorem attempts_zero_counterexample:
  "map_option attempts
     (returned (execute_step example_python (executor_of 0 example_registry) github_step state0))
     = Some 0 \<and>
   \<not> resolution_failed (executor_of 0 example_registry) github_step"
  by code_simp

text \<open>
  C3, as amended. For every step and every behaviour of the handlers: a successful
  result has no error, and its \<open>data\<close> is the payload that the resolved handler returned
  (so it is present unless the handler returned \<open>None\<close>); a failed result has, when
  \<open>max_retries\<close> is at least 1, an error that is not \<open>None\<close>, and after a failed resolution
  its error is a non-empty string.
\<close>

theorem step_result_invariant:
  assumes "execute_step P E st s = (Inr r, s')"
  shows "(success r \<longrightarrow>
            error r = PNone \<and>
            (\<exists>fn ex h p w. resolve E st = Resolved fn ex h \<and> fst (h p w) = Returns (data r))) \<and>
         (\<not> success r \<longrightarrow>
            (0 < max_retries E \<longrightarrow> error r \<noteq> PNone) \<and>
            (resolution_failed E st \<longrightarrow> (\<exists>m. error r = PStr m \<and> m \<noteq> [])))"
proof (cases E st rule: resolution_cases)
  case 1
  from execute_step_unresolved[OF 1 assms] show ?thesis by auto
next
  case (2 fn ex h)
  show ?thesis
  proof (cases "0 < max_retries E")
    case True
    from execute_step_resolved[OF 2(1) True assms]
    have lp: "loop_post P h ex (s_parameters st) 0 (nat (max_retries E)) (initial_result st)
                (entered s) r s'" .
    have "\<exists>p w. fst (h p w) = Returns (data r)" if "success r"
      using lp that by (auto simp: loop_post_def dest: try_call_Returns)
    moreover have "error r = PNone" if "success r"
      using lp that by (simp add: loop_post_def initial_result_def)
    moreover have "error r \<noteq> PNone" if "\<not> success r"
      using lp that by (simp add: loop_post_def)
    ultimately show ?thesis using 2 by blast
  next
    case False
    then have "execute_step P E st s = (Inr (initial_result st), entered s)"
      using 2(1) by (simp add: execute_step_no_attempt)
    with assms have "r = initial_result st" by simp
    then show ?thesis using False 2(2) by (simp add: initial_result_def)
  qed
qed

theorem step_result_invariant_witness:
  "returned (execute_step example_python example_executor weather_step state0) = Some weather_ok \<and>
   success weather_ok \<and> error weather_ok = PNone \<and>
   data weather_ok = PDict [(''success'', PBool True)] \<and>
   (\<exists>fn ex h p w. resolve example_executor weather_step = Resolved fn ex h \<and>
      fst (h p w) = Returns (data weather_ok)) \<and>
   returned (execute_step example_python example_executor github_step state0)
     = Some github_failed \<and>
   \<not> success github_failed \<and> 0 < max_retries example_executor \<and>
   error github_failed \<noteq> PNone \<and>
   resolution_failed example_executor calendar_step \<and>
   (\<exists>r m. returned (execute_step example_python example_executor calendar_step state0) = Some r \<and>
      \<not> success r \<and> error r = PStr m \<and> m \<noteq> [])"
proof -
  have r1: "returned (execute_step example_python example_executor weather_step state0)
      = Some weather_ok" by code_simp
  have r2: "returned (execute_step example_python example_executor github_step state0)
      = Some github_failed" by code_simp
  have r3: "returned (execute_step example_python example_executor calendar_step state0) \<noteq> None"
    by code_simp
  then obtain r where r3': "returned (execute_step example_python example_executor calendar_step
      state0) = Some r" by blast
  have s3: "map_option success
      (returned (execute_step example_python example_executor calendar_step state0)) = Some False"
    by code_simp
  have a: "success weather_ok" by code_simp
  have b: "data weather_ok = PDict [(''success'', PBool True)]" by code_simp
  have c: "\<not> success github_failed" by code_simp
  have d: "0 < max_retries example_executor" by code_simp
  have e: "\<not> success r" using s3 r3' by simp
  have f: "resolution_failed example_executor calendar_step" by code_simp
  note t1 = step_result_invariant[OF r1[unfolded returned_iff]]
  note t2 = step_result_invariant[OF r2[unfolded returned_iff]]
  note t3 = step_result_invariant[OF r3'[unfolded returned_iff]]
  from t1 a have p1: "error weather_ok = PNone"
    "\<exists>fn ex h p w. resolve example_executor weather_step = Resolved fn ex h \<and>
      fst (h p w) = Returns (data weather_ok)"
    by blast+
  from t2 c d have p2: "error github_failed \<noteq> PNone" by blast
  from t3 e f have p3: "\<exists>m. error r = PStr m \<and> m \<noteq> []" by blast
  with r3' e have p3': "\<exists>r m. returned (execute_step example_python example_executor
      calendar_step state0) = Some r \<and> \<not> success r \<and> error r = PStr m \<and> m \<noteq> []"
    by blast
  from r1 r2 a b c d f p1 p2 p3' show ?thesis by blast
qed

text \<open>
  The invariant as first stated fails in four ways. With \<open>max_retries = 0\<close> a resolvable
  step fails with no error at all. A handler that returns \<open>None\<close> gives a successful result
  without data. A handler whose exception has an empty text (as \<open>AssertionError()\<close> has)
  gives a failed result whose error is the empty string. A handler whose \<open>error\<close> entry is
  the number 404 gives a failed result whose error is that number, not a string.
\<close>

theorem step_result_invariant_counterexample:
  "returned (execute_step example_python (executor_of 0 example_registry) weather_step state0)
     = Some \<lparr>step_id = PStr ''s2'', tool = ''weather'', func = ''get_current_weather'',
              action = ''Get weather'', success = False, data = PNone, error = PNone,
              attempts = 0\<rparr> \<and>
   returned (execute_step example_python
       (executor_of 3 (registry_with ''weather'' ''get_current_weather'' none_handler))
       weather_step state0)
     = Some \<lparr>step_id = PStr ''s2'', tool = ''weather'', func = ''get_current_weather'',
              action = ''Get weather'', success = True, data = PNone, error = PNone,
              attempts = 1\<rparr> \<and>
   returned (execute_step example_python
       (executor_of 3 (registry_with ''weather'' ''get_current_weather'' assert_handler))
       weather_step state0)
     = Some \<lparr>step_id = PStr ''s2'', tool = ''weather'', func = ''get_current_weather'',
              action = ''Get weather'', success = False, data = PNone, error = PStr [],
              attempts = 3\<rparr> \<and>
   returned (execute_step example_python
       (executor_of 3 (registry_with ''weather'' ''get_current_weather'' status_handler))
       weather_step state0)
     = Some \<lparr>step_id = PStr ''s2'', tool = ''weather'', func = ''get_current_weather'',
              action = ''Get weather'', success = False, data = PNone, error = PInt 404,
              attempts = 3\<rparr>"
  by code_simp

lemma after_attempts_0: "after_attempts P E h ex ps 0 s = s"
  by (simp add: after_attempts_def)

lemma after_attempts_Suc:
  "after_attempts P E h ex ps (Suc k) s =
     after_attempts P E h ex ps k (attempt_and_wait P E h ex ps s)"
  by (simp add: after_attempts_def funpow_swap1)

lemma retry_loop_always_raises:
  assumes n: "n = nat (max_retries E)"
    and raises: "\<And>s0. \<exists>e. fst (try_call P h ex ps s0) = Raises e"
    and waits: "\<And>s0. 1 < n \<Longrightarrow> fst (sleep P E s0) = None"
  shows "k < n \<Longrightarrow>
         \<exists>r' s'. retry_loop P E h ex ps [k..<n] r s = (Inr r', s') \<and>
           success r' = success r \<and> attempts r' = int n \<and>
           (\<exists>e. fst (try_call P h ex ps (after_attempts P E h ex ps (n - Suc k) s)) = Raises e \<and>
                error r' = PStr e)"
proof (induction "n - k" arbitrary: k r s)
  case 0
  then show ?case by simp
next
  case (Suc m)
  let ?r1 = "r\<lparr>attempts := int k + 1\<rparr>"
  have upt: "[k..<n] = k # [Suc k..<n]" using Suc.prems by (simp add: upt_conv_Cons)
  have last_iff: "(int k < max_retries E - 1) = (Suc k < n)" using n by auto
  obtain e where e: "fst (try_call P h ex ps s) = Raises e" using raises by blast
  then obtain s1 where tc: "try_call P h ex ps s = (Raises e, s1)"
    by (cases "try_call P h ex ps s") simp
  then have tb: "try_body P E h ex ps k ?r1 s = (Caught e, s1)" by (simp add: try_body_def)
  show ?case
  proof (cases "Suc k < n")
    case True
    then have "fst (sleep P E s1) = None" by (intro waits) simp
    then obtain s2 where sl: "sleep P E s1 = (None, s2)" by (cases "sleep P E s1") simp
    have s2: "s2 = attempt_and_wait P E h ex ps s" using tc sl by (simp add: attempt_and_wait_def)
    have step: "retry_loop P E h ex ps [k..<n] r s = retry_loop P E h ex ps [Suc k..<n] ?r1 s2"
      using tb sl True by (simp add: upt last_iff)
    have m: "m = n - Suc k" using Suc.hyps(2) by simp
    have "n - Suc k = Suc (n - Suc (Suc k))" using True by simp
    then have "after_attempts P E h ex ps (n - Suc k) s =
               after_attempts P E h ex ps (n - Suc (Suc k)) s2"
      using s2 by (simp add: after_attempts_Suc)
    with Suc.hyps(1)[OF m True, of ?r1 s2] step show ?thesis by simp
  next
    case False
    then have k: "n = Suc k" "[Suc k..<n] = []" using Suc.prems by simp_all
    with tb False have "retry_loop P E h ex ps [k..<n] r s = (Inr (?r1\<lparr>error := PStr e\<rparr>), s1)"
      by (simp add: upt last_iff)
    then show ?thesis using k e by (simp add: after_attempts_0)
  qed
qed

lemma try_call_raises:
  assumes "\<forall>p w. \<exists>e. fst (h p w) = Raises e"
  shows "\<exists>e. fst (try_call P h ex ps s0) = Raises e"
proof (cases "clean_parameters P ps ex")
  case (Inl e)
  then show ?thesis by (simp add: try_call_def)
next
  case (Inr cp)
  from assms obtain e where "fst (h cp (world s0)) = Raises e" by blast
  with Inr show ?thesis by (cases "h cp (world s0)") (simp add: try_call_def)
qed

text \<open>
  C5, as amended. Let \<open>max_retries\<close> be at least 1 and, when it is more than 1, let
  \<open>time.sleep\<close> accept the retry delay (it raises for a negative delay and for one that is
  no number). Then for every resolvable step whose handler raises on every invocation,
  \<open>_execute_step\<close> returns a result with \<open>success = False\<close>, \<open>attempts = max_retries\<close>, and
  as error the text of the exception raised on the last attempt, that is, by the \<open>try\<close>
  block entered in the state that \<open>max_retries - 1\<close> earlier attempts and waits have left.
\<close>

theorem always_raising_handler:
  assumes "resolve E st = Resolved fn ex h"
    and "\<forall>p w. \<exists>e. fst (h p w) = Raises e"
    and "0 < max_retries E"
    and "1 < max_retries E \<longrightarrow> (\<forall>w. fst (time_sleep P (retry_delay E) w) = None)"
  shows "\<exists>r s'. execute_step P E st s = (Inr r, s') \<and>
           \<not> success r \<and> attempts r = max_retries E \<and>
           (\<exists>e. fst (try_call P h ex (s_parameters st)
                      (after_attempts P E h ex (s_parameters st) (nat (max_retries E) - 1)
                         (entered s)))
                  = Raises e \<and>
                error r = PStr e)"
proof -
  have loop: "execute_step P E st s =
      retry_loop P E h ex (s_parameters st) [0..<nat (max_retries E)] (initial_result st)
        (entered s)"
    using assms(1) by (simp add: execute_step_def entered_def Let_def)
  have pos: "0 < nat (max_retries E)" using assms(3) by simp
  have waits: "fst (sleep P E s0) = None" if "1 < nat (max_retries E)" for s0
  proof -
    from that assms(4) have "fst (time_sleep P (retry_delay E) (world s0)) = None" by simp
    then show ?thesis by (cases "time_sleep P (retry_delay E) (world s0)") (simp add: sleep_def)
  qed
  have "\<exists>r' s'. retry_loop P E h ex (s_parameters st) [0..<nat (max_retries E)]
            (initial_result st) (entered s) = (Inr r', s') \<and>
           success r' = success (initial_result st) \<and> attempts r' = int (nat (max_retries E)) \<and>
           (\<exists>e. fst (try_call P h ex (s_parameters st)
                      (after_attempts P E h ex (s_parameters st)
                         (nat (max_retries E) - Suc 0) (entered s))) = Raises e \<and>
                error r' = PStr e)"
    by (rule retry_loop_always_raises[OF refl try_call_raises[OF assms(2)] waits pos])
  then show ?thesis using assms(3) loop by (simp add: initial_result_def)
qed

theorem always_raising_handler_witness:
  "resolve example_executor news_step = Resolved ''search_news'' [''query''] raising_handler \<and>
   (\<forall>p w. \<exists>e. fst (raising_handler p w) = Raises e) \<and>
   0 < max_retries example_executor \<and>
   1 < max_retries example_executor \<and>
   (\<forall>w. fst (time_sleep example_python (retry_delay example_executor) w) = None) \<and>
   returned (execute_step example_python example_executor news_step state0) = Some news_failed \<and>
   \<not> success news_failed \<and>
   attempts news_failed = max_retries example_executor \<and>
   error news_failed = PStr ''Request timed out''"
proof -
  have a: "resolve example_executor news_step = Resolved ''search_news'' [''query''] raising_handler"
    by (simp add: resolve_def example_executor_def executor_of_def example_registry_def
        news_step_def get_or_def lower_def lower_char_def lookup_handler_def)
  have b: "\<forall>p w. \<exists>e. fst (raising_handler p w) = Raises e"
    by (simp add: raising_handler_def)
  have c: "0 < max_retries example_executor" "1 < max_retries example_executor" by code_simp+
  have d: "\<forall>w. fst (time_sleep example_python (retry_delay example_executor) w) = None"
    by (simp add: example_python_def example_executor_def executor_of_def)
  have r: "returned (execute_step example_python example_executor news_step state0)
      = Some news_failed" by code_simp
  have e: "attempts news_failed = max_retries example_executor" by code_simp
  have f: "error news_failed = PStr ''Request timed out''" by code_simp
  from d have d': "1 < max_retries example_executor \<longrightarrow>
      (\<forall>w. fst (time_sleep example_python (retry_delay example_executor) w) = None)" by blast
  from always_raising_handler[where P=example_python and s=state0, OF a b c(1) d']
  obtain r' s' where
    "execute_step example_python example_executor news_step state0 = (Inr r', s')"
    "\<not> success r'" by blast
  with r have "\<not> success news_failed" by (simp add: returned_def)
  with a b c d r e f show ?thesis by blast
qed

text \<open>
  Without these bounds the statement fails. With \<open>max_retries = 0\<close> no attempt is made and
  the error stays \<open>None\<close>, which is no exception's text; with \<open>max_retries = -1\<close> the
  result has \<open>attempts = 0\<close>, not \<open>max_retries\<close>. With \<open>max_retries = 3\<close> and the delay
  \<open>-1\<close> the wait after the first attempt raises inside the \<open>except\<close> block: the step
  executor returns no result, it is left by that exception after one call of the handler.
\<close>

theorem always_raising_handler_counterexample:
  "\<not> resolution_failed (executor_of 0 example_registry) news_step \<and>
   map_option error
     (returned (execute_step example_python (executor_of 0 example_registry) news_step state0))
     = Some PNone \<and>
   map_option attempts
     (returned (execute_step example_python (executor_of (- 1) example_registry) news_step state0))
     = Some 0 \<and>
   max_retries negative_delay_executor = 3 \<and>
   execute_step example_python negative_delay_executor news_step state0 =
     (Inl ''sleep length must be non-negative'',
      \<lparr>world = 1, handler_calls = 1, step_calls = 1, llm_calls = 0\<rparr>)"
  by code_simp

lemma infer_function_registered:
  assumes "t \<in> {''github'', ''weather'', ''news''}"
  shows "\<exists>f. infer_function t st = Some f \<and> f \<noteq> []"
  using assms by (auto simp: infer_function_def Let_def)

text \<open>
  C9. When the registered tools are exactly \<open>github\<close>, \<open>weather\<close> and \<open>news\<close>, function
  inference returns a function name (a non-empty one) for every step whose normalised tool
  name is in the registry, so resolution never ends in the "Unknown function" branch.
\<close>

theorem inference_total_for_registered_tools:
  assumes "dom (tools_registry E) = {''github'', ''weather'', ''news''}"
  shows "(tools_registry E (lower (get_or [] (s_tool st))) \<noteq> None \<longrightarrow>
            (\<exists>f. infer_function (lower (get_or [] (s_tool st))) st = Some f \<and> f \<noteq> [])) \<and>
         (\<forall>inferred. resolve E st \<noteq> UnknownFunction inferred)"
proof -
  let ?t = "lower (get_or [] (s_tool st))"
  have inf: "\<exists>f. infer_function ?t st = Some f \<and> f \<noteq> []" if "tools_registry E ?t \<noteq> None"
  proof -
    from that have "?t \<in> dom (tools_registry E)" by (simp add: dom_def)
    with assms show ?thesis by (intro infer_function_registered) simp
  qed
  have "resolve E st \<noteq> UnknownFunction inferred" for inferred
  proof (cases "tools_registry E ?t")
    case None
    then show ?thesis by (simp add: resolve_def Let_def)
  next
    case (Some fs)
    with inf obtain f where "infer_function ?t st = Some f" "f \<noteq> []" by auto
    with Some show ?thesis
      by (simp add: resolve_def Let_def lookup_handler_def split: option.splits)
  qed
  with inf show ?thesis by blast
qed

theorem inference_total_for_registered_tools_witness:
  "dom (tools_registry example_executor) = {''github'', ''weather'', ''news''} \<and>
   tools_registry example_executor (lower (get_or [] (s_tool github_step))) \<noteq> None \<and>
   infer_function (lower (get_or [] (s_tool github_step))) github_step = Some ''search_repositories'' \<and>
   (\<forall>inferred. resolve example_executor github_step \<noteq> UnknownFunction inferred)"
proof -
  have a: "dom (tools_registry example_executor) = {''github'', ''weather'', ''news''}"
    by (auto simp: example_executor_def executor_of_def example_registry_def)
  have b: "tools_registry example_executor (lower (get_or [] (s_tool github_step))) \<noteq> None"
    by code_simp
  have c: "infer_function (lower (get_or [] (s_tool github_step))) github_step = Some ''search_repositories''"
    by code_simp
  from inference_total_for_registered_tools[OF a, of github_step] a b c show ?thesis by simp
qed


section \<open>The plan executor: claims\<close>

text \<open>
  C10. For every plan with at least one step, the report of \<open>execute_plan\<close> satisfies
  \<open>successful_steps + failed_steps = total_steps = len(step_results)\<close>, and the step results
  are, position by position and in plan order, the results of running the steps of the
  plan: one result for each step, with the step's id.
\<close>

theorem report_counts_and_order:
  assumes "steps pl \<noteq> []" "execute_plan P E pl s = (Inr rep, s')"
  shows "successful_steps rep + failed_steps rep = total_steps rep \<and>
         total_steps rep = length (step_results rep) \<and>
         length (step_results rep) = length (steps pl) \<and>
         list_all2 (result_of_step P E) (steps pl) (step_results rep) \<and>
         map step_id (step_results rep) =
           map (\<lambda>st. get_or (PStr ''unknown'') (s_step_id st)) (steps pl)"
proof -
  from execute_plan_nonempty[OF assms] have
    a: "list_all2 (result_of_step P E) (steps pl) (step_results rep)" and
    b: "map step_id (step_results rep) =
           map (\<lambda>st. get_or (PStr ''unknown'') (s_step_id st)) (steps pl)" and
    c: "successful_steps rep = length (filter success (step_results rep))" and
    d: "failed_steps rep = length (filter (\<lambda>r. \<not> success r) (step_results rep))" and
    e: "total_steps rep = length (steps pl)"
    by auto
  from a have len: "length (steps pl) = length (step_results rep)" by (rule list_all2_lengthD)
  from c d have "successful_steps rep + failed_steps rep = length (step_results rep)"
    by (simp add: length_filter_split)
  with a b e len show ?thesis by simp
qed

theorem report_counts_and_order_witness:
  "steps github_weather_plan \<noteq> [] \<and>
   returned (execute_plan example_python example_executor github_weather_plan state0)
     = Some mixed_report \<and>
   successful_steps mixed_report + failed_steps mixed_report = total_steps mixed_report \<and>
   total_steps mixed_report = 2 \<and>
   length (step_results mixed_report) = length (steps github_weather_plan) \<and>
   list_all2 (result_of_step example_python example_executor) (steps github_weather_plan)
     (step_results mixed_report) \<and>
   map step_id (step_results mixed_report) = [PStr ''s3'', PStr ''s2'']"
proof -
  have a: "steps github_weather_plan \<noteq> []" by (simp add: github_weather_plan_def)
  have b: "total_steps mixed_report = 2" by code_simp
  have c: "map (\<lambda>st. get_or (PStr ''unknown'') (s_step_id st)) (steps github_weather_plan)
             = [PStr ''s3'', PStr ''s2'']" by code_simp
  have r: "returned (execute_plan example_python example_executor github_weather_plan state0)
     = Some mixed_report" by code_simp
  from report_counts_and_order[OF a r[unfolded returned_iff]] a b c r show ?thesis by simp
qed

text \<open>
  C6. For every plan without steps, \<open>execute_plan\<close> returns a report with
  \<open>total_steps = 0\<close>, the error \<open>No executable steps in plan\<close>, no successful and no
  failed step, \<open>execution_time = 0\<close> and no step result; the state of the system is what
  it was, so neither the step executor nor a handler has been invoked.
\<close>

theorem empty_plan_report:
  assumes "steps pl = []" "execute_plan P E pl s = (x, s')"
  shows "\<exists>rep. x = Inr rep \<and>
           total_steps rep = 0 \<and> report_error rep = Some ''No executable steps in plan'' \<and>
           successful_steps rep = 0 \<and> failed_steps rep = 0 \<and>
           execution_time rep = Some (PInt 0) \<and> step_results rep = [] \<and>
           s' = s \<and> step_calls s' = step_calls s \<and> handler_calls s' = handler_calls s"
  using assms by (auto simp: execute_plan_def Let_def)

theorem empty_plan_report_witness:
  "steps empty_plan = [] \<and>
   (\<exists>rep. fst (execute_plan example_python example_executor empty_plan state0) = Inr rep \<and>
      total_steps rep = 0 \<and> report_error rep = Some ''No executable steps in plan'' \<and>
      successful_steps rep = 0 \<and> failed_steps rep = 0 \<and>
      execution_time rep = Some (PInt 0) \<and> step_results rep = []) \<and>
   snd (execute_plan example_python example_executor empty_plan state0) = state0"
proof -
  have a: "steps empty_plan = []" by (simp add: empty_plan_def)
  from empty_plan_report[OF a surjective_pairing, where P=example_python
      and E=example_executor and s=state0] a
  show ?thesis by blast
qed

text \<open>
  C2, as amended. For every plan with at least one step, \<open>tools_used\<close> in the report is a
  list without duplicates that holds exactly the tool names, as the steps write them
  (\<open>unknown\<close> for a step without one), of the steps whose result is successful. Its order
  is the one in which Python enumerates a set, of which only "every element once" is
  known: the list is what \<open>list(s)\<close> makes of the set that received these names in plan
  order.
\<close>

theorem tools_used_successful_tools:
  assumes "steps pl \<noteq> []" "enumerates_once (set_order P)"
    and "execute_plan P E pl s = (Inr rep, s')"
  shows "distinct (tools_used rep) \<and>
         set (tools_used rep) =
           {get_or ''unknown'' (s_tool (steps pl ! i)) | i.
              i < length (steps pl) \<and> success (step_results rep ! i)} \<and>
         tools_used rep =
           set_order P
             (first_occurrence_order (successful_tools (steps pl) (step_results rep)))"
proof -
  let ?acc = "foldl set_add [] (successful_tools (steps pl) (step_results rep))"
  from execute_plan_nonempty[OF assms(1,3)] have
    a: "list_all2 (result_of_step P E) (steps pl) (step_results rep)" and
    t: "tools_used rep = set_order P ?acc"
    by auto
  from a have len: "length (steps pl) = length (step_results rep)" by (rule list_all2_lengthD)
  have d: "distinct ?acc" by (simp add: distinct_foldl_set_add)
  with assms(2) have "distinct (set_order P ?acc)" "set (set_order P ?acc) = set ?acc"
    by (auto simp: enumerates_once_def)
  with t show ?thesis
    by (simp add: set_foldl_set_add set_successful_tools[OF len] first_occurrence_order_def)
qed

theorem tools_used_successful_tools_witness:
  "steps github_weather_plan \<noteq> [] \<and> enumerates_once (set_order example_python) \<and>
   returned (execute_plan example_python example_executor github_weather_plan state0)
     = Some mixed_report \<and>
   distinct (tools_used mixed_report) \<and> tools_used mixed_report = [''weather''] \<and>
   set (tools_used mixed_report) =
     {get_or ''unknown'' (s_tool (steps github_weather_plan ! i)) | i.
        i < length (steps github_weather_plan) \<and> success (step_results mixed_report ! i)}"
proof -
  have a: "steps github_weather_plan \<noteq> []" by (simp add: github_weather_plan_def)
  have b: "enumerates_once (set_order example_python)"
    by (simp add: enumerates_once_def example_python_def)
  have c: "tools_used mixed_report = [''weather'']" by code_simp
  have r: "returned (execute_plan example_python example_executor github_weather_plan state0)
     = Some mixed_report" by code_simp
  from tools_used_successful_tools[OF a b r[unfolded returned_iff]] have
    "distinct (tools_used mixed_report)"
    "set (tools_used mixed_report) =
       {get_or ''unknown'' (s_tool (steps github_weather_plan ! i)) | i.
          i < length (steps github_weather_plan) \<and> success (step_results mixed_report ! i)}"
    by blast+
  with a b c r show ?thesis by blast
qed

text \<open>
  First-occurrence order fails in two ways. The tools are collected in a Python set and
  listed by \<open>list(s)\<close>: where the set \<open>{weather, github}\<close> is enumerated with \<open>github\<close>
  first, which the hashes of the two strings decide anew in each process, the report of
  a plan that ran \<open>weather\<close> before \<open>github\<close> lists \<open>github\<close> first. And a step that
  fails adds nothing: after \<open>github\<close> has failed and \<open>weather\<close> succeeded, the report
  lists \<open>weather\<close> alone.
\<close>

theorem tools_used_order_counterexample:
  "enumerates_once (set_order reversing_python) \<and>
   map_option tools_used
     (returned (execute_plan reversing_python all_ok_executor weather_github_plan state0))
     = Some [''github'', ''weather''] \<and>
   first_occurrence_order (step_tools weather_github_plan) = [''weather'', ''github''] \<and>
   map_option tools_used
     (returned (execute_plan example_python example_executor github_weather_plan state0))
     = Some [''weather''] \<and>
   first_occurrence_order (step_tools github_weather_plan) = [''github'', ''weather'']"
proof -
  have "enumerates_once (set_order reversing_python)"
    by (simp add: enumerates_once_def reversing_python_def)
  moreover have
    "map_option tools_used
       (returned (execute_plan reversing_python all_ok_executor weather_github_plan state0))
     = Some [''github'', ''weather'']" by code_simp
  moreover have "first_occurrence_order (step_tools weather_github_plan) = [''weather'', ''github'']"
    by code_simp
  moreover have
    "map_option tools_used
       (returned (execute_plan example_python example_executor github_weather_plan state0))
     = Some [''weather'']" by code_simp
  moreover have "first_occurrence_order (step_tools github_weather_plan) = [''github'', ''weather'']"
    by code_simp
  ultimately show ?thesis by blast
qed

section \<open>The result verifier: claims\<close>

text \<open>
  C7. For every report with at least one step result, all of them failed, and whatever
  the text-generation capability would do: \<open>verify_and_format\<close> returns a result with
  \<open>is_complete = False\<close>, a non-empty list of suggestions, and a formatted answer that
  contains, for each failed step, the line with its id and its error. The state of the
  system is returned as it was, so the capability has not been invoked.
\<close>

theorem all_failed_summary:
  assumes "step_results rep \<noteq> []" "\<forall>r\<in>set (step_results rep). \<not> success r"
  shows "\<exists>v answer sg.
           verify_and_format P R verify_results original_task pl rep s = (Inr v, s) \<and>
           is_complete v = Some False \<and>
           suggestions v = Some sg \<and> sg \<noteq> [] \<and>
           formatted_answer v = Some answer \<and>
           (\<forall>r\<in>set (step_results rep). sublist (failed_step_line P r) answer)"
proof -
  let ?rs = "step_results rep"
  let ?details = "map (\<lambda>st. ''- Step '' @ py_str P (fs_step_id st) @ '': '' @ py_str P (fs_error st))
                    (failed_of ?rs)"
  have nosucc: "filter success ?rs = []" using assms(2) by (simp add: filter_empty_conv)
  have eq: "verify_and_format P R verify_results original_task pl rep s =
              (Inr (format_all_failed P original_task (failed_of ?rs)), s)"
    using assms(1) nosucc by (simp add: verify_and_format_def Let_def)
  have lines: "sublist (failed_step_line P r) (join nl ?details)" if "r \<in> set ?rs" for r
  proof -
    have "failed_step_line P r \<in> set ?details"
      using that assms(2) by (force simp: failed_of_def failed_step_line_def)
    then show ?thesis by (rule sublist_join)
  qed
  define before where "before =
     ''I was unable to complete your request: '' @ [CHR 0x22] @ original_task
     @ [CHR 0x22] @ nl @ nl @ ''All execution steps failed with the following errors:'' @ nl"
  define after where "after =
     nl @ nl @ ''**Suggestions:**'' @ nl
     @ ''- Check that all required API keys are configured in your .env file'' @ nl
     @ ''- Verify your internet connection'' @ nl
     @ ''- Try simplifying your query'' @ nl
     @ ''- Check if the requested resources exist (e.g., valid city names, repository names)''"
  have ans:
    "formatted_answer (format_all_failed P original_task (failed_of ?rs)) =
       Some (before @ join nl ?details @ after)"
    by (simp add: format_all_failed_def Let_def before_def after_def)
  have "sublist (failed_step_line P r) (before @ join nl ?details @ after)" if "r \<in> set ?rs" for r
  proof -
    from lines[OF that] obtain a b where "join nl ?details = a @ failed_step_line P r @ b"
      by (auto simp: sublist_def)
    then have "before @ join nl ?details @ after = (before @ a) @ failed_step_line P r @ (b @ after)"
      by simp
    then show ?thesis unfolding sublist_def by blast
  qed
  with eq ans show ?thesis by (simp add: format_all_failed_def Let_def)
qed


theorem all_failed_summary_witness:
  "step_results failed_report \<noteq> [] \<and>
   map success (step_results failed_report) = [False, False] \<and>
   (\<exists>v answer.
      verify_and_format example_python example_renderers answering_llm ''Repos and news''
        github_news_plan failed_report state0 = (Inr v, state0) \<and>
      is_complete v = Some False \<and>
      suggestions v = Some [''Verify API keys are configured'', ''Check internet connection'',
                            ''Try a simpler query''] \<and>
      formatted_answer v = Some answer \<and>
      sublist ''- Step s3: Resource not found'' answer \<and>
      sublist ''- Step s4: Request timed out'' answer)"
proof -
  have rs: "step_results failed_report =
      [\<lparr>step_id = PStr ''s3'', tool = ''github'', func = [], action = ''Search repos'',
        success = False, data = PNone, error = PStr ''Resource not found'', attempts = 3\<rparr>,
       \<lparr>step_id = PStr ''s4'', tool = ''news'', func = ''search_news'', action = ''Find news'',
        success = False, data = PNone, error = PStr ''Request timed out'', attempts = 3\<rparr>]"
    by code_simp
  have a: "step_results failed_report \<noteq> []" by (simp add: rs)
  have b: "\<forall>r\<in>set (step_results failed_report). \<not> success r" by (simp add: rs)
  have c: "map success (step_results failed_report) = [False, False]" by (simp add: rs)
  from all_failed_summary[OF a b, of example_python example_renderers answering_llm
      "''Repos and news''" github_news_plan state0]
  obtain v answer sg where v:
    "verify_and_format example_python example_renderers answering_llm ''Repos and news''
        github_news_plan failed_report state0 = (Inr v, state0)"
    "is_complete v = Some False" "suggestions v = Some sg" "formatted_answer v = Some answer"
    "\<forall>r\<in>set (step_results failed_report). sublist (failed_step_line example_python r) answer"
    by blast
  from v(5) have d: "sublist ''- Step s3: Resource not found'' answer"
    "sublist ''- Step s4: Request timed out'' answer"
    by (simp_all add: rs failed_step_line_def example_python_def)
  have e: "suggestions v = Some [''Verify API keys are configured'', ''Check internet connection'',
                            ''Try a simpler query'']"
    using v(1) a b
    by (auto simp: verify_and_format_def Let_def format_all_failed_def filter_empty_conv)
  from a c v(1,2,4) d e show ?thesis by blast
qed

text \<open>
  C8, as amended. For every report with at least one successful and at least one failed
  step: when the text-generation capability replies with a non-empty formatted answer,
  the result's formatted answer is that answer followed by the partial-failure note;
  when the capability fails and the fallback formatting returns, the result's formatted
  answer is a non-empty text followed by the note. The note is not empty and lists the
  action and the error of each failed step. When the capability replies with an empty
  formatted answer or with none, the result carries the reply's formatted answer as it
  is, without the note.
\<close>

theorem partial_failure_note:
  assumes "\<exists>r\<in>set (step_results rep). success r"
    and "\<exists>r\<in>set (step_results rep). \<not> success r"
    and "verify_and_format P R verify_results original_task pl rep s = (res, s')"
  shows "(\<forall>reply answer.
            fst (verify_results original_task pl (step_results rep) (world s)) = Returns reply \<longrightarrow>
            reply_formatted_answer reply = Some answer \<longrightarrow> answer \<noteq> [] \<longrightarrow>
            (\<exists>v. res = Inr v \<and> formatted_answer v = Some (answer @ report_failure_note P rep))) \<and>
         (\<forall>reply.
            fst (verify_results original_task pl (step_results rep) (world s)) = Returns reply \<longrightarrow>
            reply_formatted_answer reply = None \<or> reply_formatted_answer reply = Some [] \<longrightarrow>
            (\<exists>v. res = Inr v \<and> formatted_answer v = reply_formatted_answer reply)) \<and>
         (\<forall>e v.
            fst (verify_results original_task pl (step_results rep) (world s)) = Raises e \<longrightarrow>
            res = Inr v \<longrightarrow>
            (\<exists>before. before \<noteq> [] \<and>
               formatted_answer v = Some (before @ report_failure_note P rep))) \<and>
         report_failure_note P rep \<noteq> [] \<and>
         (\<forall>r\<in>set (step_results rep). \<not> success r \<longrightarrow>
            sublist (failure_note_line P r) (report_failure_note P rep))"
proof -
  let ?rs = "step_results rep"
  let ?failed = "failed_of ?rs"
  let ?call = "verify_results original_task pl ?rs (world s)"
  have ne: "?rs \<noteq> []" using assms(1) by auto
  have succ: "filter success ?rs \<noteq> []" using assms(1) by (simp add: filter_empty_conv)
  have failed: "?failed \<noteq> []" using assms(2) by (rule failed_of_nonempty)
  obtain out w' where call: "?call = (out, w')" by (cases ?call)
  have A: "\<exists>v. res = Inr v \<and> formatted_answer v = Some (answer @ report_failure_note P rep)"
    if "fst ?call = Returns reply" "reply_formatted_answer reply = Some answer" "answer \<noteq> []"
    for reply answer
    using that assms(3) ne succ failed call
    by (auto simp add: verify_and_format_def Let_def report_failure_note_def)
  have B: "\<exists>v. res = Inr v \<and> formatted_answer v = reply_formatted_answer reply"
    if "fst ?call = Returns reply"
      "reply_formatted_answer reply = None \<or> reply_formatted_answer reply = Some []"
    for reply
    using that assms(3) ne succ failed call
    by (auto simp add: verify_and_format_def Let_def)
  have C: "\<exists>before. before \<noteq> [] \<and> formatted_answer v = Some (before @ report_failure_note P rep)"
    if "fst ?call = Raises e" "res = Inr v" for e v
  proof -
    from that assms(3) ne succ call
    have bf: "basic_format P R original_task ?rs ?failed = Inr v"
      by (auto simp add: verify_and_format_def Let_def)
    then obtain parts where parts:
      "basic_parts P R ?rs [''**Results for:** '' @ original_task @ nl] = Inr parts"
      "formatted_answer v = Some (join nl (parts @ [format_failure_note P ?failed]))"
      using failed by (auto simp: basic_format_def Let_def split: sum.splits)
    from basic_parts_extends[OF parts(1)] have "parts \<noteq> []" by auto
    then have "join nl (parts @ [format_failure_note P ?failed]) =
                 (join nl parts @ nl) @ format_failure_note P ?failed"
      by (simp add: join_snoc)
    moreover have "join nl parts @ nl \<noteq> []" by (simp add: nl_def)
    ultimately show ?thesis using parts(2) unfolding report_failure_note_def by metis
  qed
  have D: "report_failure_note P rep \<noteq> []"
    using failed by (simp add: report_failure_note_def failure_note_nonempty)
  have E: "sublist (failure_note_line P r) (report_failure_note P rep)"
    if "r \<in> set ?rs" "\<not> success r" for r
    using that by (simp add: report_failure_note_def failure_note_lists)
  show ?thesis
  proof (intro conjI allI impI ballI)
    fix reply answer
    assume "fst ?call = Returns reply" "reply_formatted_answer reply = Some answer" "answer \<noteq> []"
    then show "\<exists>v. res = Inr v \<and> formatted_answer v = Some (answer @ report_failure_note P rep)"
      by (rule A)
  next
    fix reply
    assume "fst ?call = Returns reply"
      "reply_formatted_answer reply = None \<or> reply_formatted_answer reply = Some []"
    then show "\<exists>v. res = Inr v \<and> formatted_answer v = reply_formatted_answer reply"
      by (rule B)
  next
    fix e v
    assume "fst ?call = Raises e" "res = Inr v"
    then show "\<exists>before. before \<noteq> [] \<and>
                 formatted_answer v = Some (before @ report_failure_note P rep)"
      by (rule C)
  next
    show "report_failure_note P rep \<noteq> []" by (rule D)
  next
    fix r
    assume "r \<in> set ?rs" "\<not> success r"
    then show "sublist (failure_note_line P r) (report_failure_note P rep)" by (rule E)
  qed
qed


theorem partial_failure_note_witness:
  "map success (step_results mixed_report) = [False, True] \<and>
   (\<exists>v. fst (verify_and_format example_python example_renderers answering_llm
              ''Repos and weather'' github_weather_plan mixed_report state0) = Inr v \<and>
        formatted_answer v =
          Some (''It is sunny in Paris.'' @ report_failure_note example_python mixed_report)) \<and>
   (\<exists>v before.
        fst (verify_and_format example_python example_renderers broken_llm
              ''Repos and weather'' github_weather_plan mixed_report state0) = Inr v \<and>
        before \<noteq> [] \<and>
        formatted_answer v = Some (before @ report_failure_note example_python mixed_report)) \<and>
   report_failure_note example_python mixed_report =
     nl @ nl @ ''**Note:** Some information could not be retrieved:'' @ nl
     @ ''- Search repos: Resource not found'' \<and>
   sublist ''- Search repos: Resource not found'' (report_failure_note example_python mixed_report)"
proof -
  have rs: "step_results mixed_report =
      [\<lparr>step_id = PStr ''s3'', tool = ''github'', func = [], action = ''Search repos'',
        success = False, data = PNone, error = PStr ''Resource not found'', attempts = 3\<rparr>,
       \<lparr>step_id = PStr ''s2'', tool = ''weather'', func = ''get_current_weather'',
        action = ''Get weather'', success = True, data = PDict [(''success'', PBool True)],
        error = PNone, attempts = 1\<rparr>]"
    by code_simp
  have a: "\<exists>r\<in>set (step_results mixed_report). success r" by (simp add: rs)
  have b: "\<exists>r\<in>set (step_results mixed_report). \<not> success r" by (simp add: rs)
  have c: "map success (step_results mixed_report) = [False, True]" by (simp add: rs)
  have note_eq: "report_failure_note example_python mixed_report =
     nl @ nl @ ''**Note:** Some information could not be retrieved:'' @ nl
     @ ''- Search repos: Resource not found''"
    by (simp add: report_failure_note_def rs failed_of_def format_failure_note_def
        example_python_def)
  have line: "failure_note_line example_python
      \<lparr>step_id = PStr ''s3'', tool = ''github'', func = [], action = ''Search repos'',
        success = False, data = PNone, error = PStr ''Resource not found'', attempts = 3\<rparr>
      = ''- Search repos: Resource not found''"
    by (simp add: failure_note_line_def example_python_def)
  have answering: "fst (answering_llm ''Repos and weather'' github_weather_plan
                     (step_results mixed_report) (world state0)) =
     Returns \<lparr>reply_formatted_answer = Some ''It is sunny in Paris.'',
               reply_is_complete = Some False,
               reply_missing_info = Some [''repositories''],
               reply_suggestions = None\<rparr>"
    by (simp add: answering_llm_def)
  have broken: "fst (broken_llm ''Repos and weather'' github_weather_plan
                     (step_results mixed_report) (world state0)) = Raises ''API key missing''"
    by (simp add: broken_llm_def)
  have returns: "\<exists>v. fst (verify_and_format example_python example_renderers broken_llm
              ''Repos and weather'' github_weather_plan mixed_report state0) = Inr v"
    by (simp add: verify_and_format_def Let_def rs failed_of_def broken_llm_def basic_format_def
        format_tool_data_def example_renderers_def)
  note t1 = partial_failure_note[OF a b surjective_pairing, where P=example_python
      and R=example_renderers and verify_results=answering_llm
      and original_task="''Repos and weather''" and pl=github_weather_plan and s=state0]
  note t2 = partial_failure_note[OF a b surjective_pairing, where P=example_python
      and R=example_renderers and verify_results=broken_llm
      and original_task="''Repos and weather''" and pl=github_weather_plan and s=state0]
  from t1 answering have p1:
    "\<exists>v. fst (verify_and_format example_python example_renderers answering_llm
              ''Repos and weather'' github_weather_plan mixed_report state0) = Inr v \<and>
        formatted_answer v =
          Some (''It is sunny in Paris.'' @ report_failure_note example_python mixed_report)"
    by simp
  from t2 broken returns have p2:
    "\<exists>v before.
        fst (verify_and_format example_python example_renderers broken_llm
              ''Repos and weather'' github_weather_plan mixed_report state0) = Inr v \<and>
        before \<noteq> [] \<and>
        formatted_answer v = Some (before @ report_failure_note example_python mixed_report)"
    by blast
  from t1 have "\<forall>r\<in>set (step_results mixed_report). \<not> success r \<longrightarrow>
            sublist (failure_note_line example_python r)
              (report_failure_note example_python mixed_report)"
    by blast
  then have p3: "sublist ''- Search repos: Resource not found''
                   (report_failure_note example_python mixed_report)"
    using line by (simp add: rs)
  from c p1 p2 note_eq p3 show ?thesis by blast
qed

text \<open>
  The text-generation path appends the note only to a non-empty answer
  (\<open>if failed_steps and verification.get("formatted_answer")\<close>): for a report with one
  failed and one successful step and a reply whose formatted answer is the empty string,
  the returned formatted answer is empty and carries no note.
\<close>

theorem partial_failure_note_counterexample:
  "map success (step_results mixed_report) = [False, True] \<and>
   fst (verify_and_format example_python example_renderers silent_llm ''Repos and weather''
          github_weather_plan mixed_report state0) =
     Inr \<lparr>is_complete = Some False,
          formatted_answer = Some [],
          missing_info = Some [],
          v_failed_steps =
            [\<lparr>fs_step_id = PStr ''s3'', fs_action = ''Search repos'',
              fs_error = PStr ''Resource not found''\<rparr>],
          suggestions = None,
          v_successful_steps = Some 1,
          v_total_steps = Some 2\<rparr>"
  by code_simp

end
